theory Spec2Isabelle
  imports Main "HOL-Library.Word"
begin

section \<open>Bytes, errors and the primitive library\<close>

text \<open>
  Python's \<open>bytes\<close> is a list of 8-bit words. Every exception the modelled code can
  raise is a value of \<open>error\<close>; a function that may raise returns \<open>error + 'a\<close>, with
  \<open>Inl\<close> for the exception. \<open>TypeError\<close> and \<open>RuntimeError\<close> are the classes
  \<^verbatim>\<open>public.py\<close> raises by name. The other constructors are the error kinds of the
  specification's taxonomy, raised by modules that are not among the sources
  (\<^verbatim>\<open>monocypher/utils\<close>, \<^verbatim>\<open>monocypher/secret.py\<close>, \<^verbatim>\<open>monocypher/pwhash.py\<close>).
\<close>

type_synonym byte = "8 word"
type_synonym bytes = "byte list"

datatype error =
    TypeError
  | RuntimeError
  | InvalidLength
  | InvalidParameter
  | MalformedMessage
  | MissingNonce
  | AuthenticationFailed

text \<open>
  The test-suite catches \<^verbatim>\<open>CryptoError\<close> for a missing nonce, a missing tag and a
  tampered message (\<^verbatim>\<open>tests/test_secret.py\<close>); the docstring of
  \<^verbatim>\<open>SealedBox.decrypt\<close> names the same class.
\<close>

fun is_CryptoError :: "error \<Rightarrow> bool" where
  "is_CryptoError MissingNonce = True"
| "is_CryptoError MalformedMessage = True"
| "is_CryptoError AuthenticationFailed = True"
| "is_CryptoError _ = False"

text \<open>
  The compiled primitive library \<^verbatim>\<open>monocypher._monocypher.lib\<close>, as declared in
  \<^verbatim>\<open>build_monocypher.py\<close>. Its C sources are outside the repository's Python code, so
  the functions the wrappers call are fields of a record that every operation takes as
  its first argument. Output buffers are results; \<^verbatim>\<open>crypto_unlock_aead\<close>'s return
  code \<^verbatim>\<open>-1\<close> is \<open>None\<close>.

  \<^item> \<open>crypto_lock_aead key nonce ad plain_text = (mac, cipher_text)\<close>
  \<^item> \<open>crypto_unlock_aead key nonce mac ad cipher_text = Some plain_text\<close> or \<open>None\<close>
  \<^item> \<open>crypto_key_exchange your_secret_key their_public_key = shared_key\<close>
  \<^item> \<open>crypto_key_exchange_public_key your_secret_key = your_public_key\<close>
  \<^item> \<open>crypto_argon2i hash_size nb_blocks nb_iterations password salt = hash\<close>
\<close>

record lib =
  crypto_lock_aead :: "bytes \<Rightarrow> bytes \<Rightarrow> bytes \<Rightarrow> bytes \<Rightarrow> bytes \<times> bytes"
  crypto_unlock_aead :: "bytes \<Rightarrow> bytes \<Rightarrow> bytes \<Rightarrow> bytes \<Rightarrow> bytes \<Rightarrow> bytes option"
  crypto_key_exchange :: "bytes \<Rightarrow> bytes \<Rightarrow> bytes"
  crypto_key_exchange_public_key :: "bytes \<Rightarrow> bytes"
  crypto_argon2i :: "nat \<Rightarrow> nat \<Rightarrow> nat \<Rightarrow> bytes \<Rightarrow> bytes \<Rightarrow> bytes"

text \<open>
  What the declarations promise about sizes (\<^verbatim>\<open>uint8_t mac[16]\<close>, a cipher text of
  \<^verbatim>\<open>text_size\<close> bytes, \<^verbatim>\<open>uint8_t shared_key[32]\<close>,
  \<^verbatim>\<open>uint8_t your_public_key[32]\<close>, a hash of \<^verbatim>\<open>hash_size\<close> bytes), and the two
  functional laws of the primitives the composition layer relies on: unlocking what was
  locked under the same key, nonce and associated data returns the plain text, and the
  key exchange is symmetric. They are stated for well-sized arguments only.
\<close>

definition aead_contract :: "lib \<Rightarrow> bool" where
  "aead_contract L \<longleftrightarrow>
     (\<forall>k n a p. length k = 32 \<and> length n = 24 \<longrightarrow>
        length (fst (crypto_lock_aead L k n a p)) = 16 \<and>
        length (snd (crypto_lock_aead L k n a p)) = length p \<and>
        crypto_unlock_aead L k n (fst (crypto_lock_aead L k n a p)) a
          (snd (crypto_lock_aead L k n a p)) = Some p)"

definition kx_contract :: "lib \<Rightarrow> bool" where
  "kx_contract L \<longleftrightarrow>
     (\<forall>s. length s = 32 \<longrightarrow> length (crypto_key_exchange_public_key L s) = 32) \<and>
     (\<forall>s p. length s = 32 \<and> length p = 32 \<longrightarrow> length (crypto_key_exchange L s p) = 32) \<and>
     (\<forall>s t. length s = 32 \<and> length t = 32 \<longrightarrow>
        crypto_key_exchange L s (crypto_key_exchange_public_key L t) =
        crypto_key_exchange L t (crypto_key_exchange_public_key L s))"

definition argon2i_contract :: "lib \<Rightarrow> bool" where
  "argon2i_contract L \<longleftrightarrow>
     (\<forall>hs nb ni pw salt. length (crypto_argon2i L hs nb ni pw salt) = hs)"

text \<open>
  The constant-time comparisons of the library are specified by the comment on their
  declaration: \<^verbatim>\<open>Return 0 if a and b are equal, -1 otherwise\<close>. The C functions read
  exactly \<open>n\<close> bytes from each pointer, whatever the Python objects behind them hold.
\<close>

definition lib_crypto_verify :: "nat \<Rightarrow> bytes \<Rightarrow> bytes \<Rightarrow> int" where
  "lib_crypto_verify n a b = (if take n a = take n b then 0 else - 1)"

definition lib_crypto_verify16 :: "bytes \<Rightarrow> bytes \<Rightarrow> int" where
  "lib_crypto_verify16 a b = lib_crypto_verify 16 a b"

definition lib_crypto_verify32 :: "bytes \<Rightarrow> bytes \<Rightarrow> int" where
  "lib_crypto_verify32 a b = lib_crypto_verify 32 a b"

definition lib_crypto_verify64 :: "bytes \<Rightarrow> bytes \<Rightarrow> int" where
  "lib_crypto_verify64 a b = lib_crypto_verify 64 a b"

section \<open>monocypher/utils\<close>

text \<open>
  Modelled from the spec: \<^verbatim>\<open>ensure\<close>, \<^verbatim>\<open>ensure_bytes_with_length\<close>,
  \<^verbatim>\<open>Encodable.encode\<close> and \<^verbatim>\<open>random\<close> of \<^verbatim>\<open>monocypher/utils/__init__.py\<close>, which
  is not among the sources. \<^verbatim>\<open>ensure(cond, exc, msg)\<close> raises \<open>exc\<close> unless \<open>cond\<close>
  holds (its use in \<^verbatim>\<open>Box.__init__\<close>). A value of the wrong length "fails with
  InvalidLength". The cryptographically secure generator is an explicit capability: an
  infinite stream of bytes of which \<^verbatim>\<open>random(n)\<close> consumes the next \<open>n\<close>.
\<close>

definition ensure :: "bool \<Rightarrow> error \<Rightarrow> error + unit" where
  "ensure cond exc = (if cond then Inr () else Inl exc)"

definition ensure_bytes_with_length :: "bytes \<Rightarrow> nat \<Rightarrow> error + unit" where
  "ensure_bytes_with_length v n = ensure (length v = n) InvalidLength"

type_synonym rng = "nat \<Rightarrow> byte"

definition random :: "nat \<Rightarrow> rng \<Rightarrow> bytes \<times> rng" where
  "random n g = (map g [0..<n], \<lambda>i. g (n + i))"

section \<open>monocypher/utils/crypto\_cmp.py\<close>

definition crypto_verify16 :: "bytes \<Rightarrow> bytes \<Rightarrow> error + bool" where
  "crypto_verify16 a b =
     (case ensure_bytes_with_length a 16 of Inl e \<Rightarrow> Inl e | Inr _ \<Rightarrow>
      case ensure_bytes_with_length b 16 of Inl e \<Rightarrow> Inl e | Inr _ \<Rightarrow>
      (let rv = lib_crypto_verify16 a b in Inr (rv = 0)))"

definition crypto_verify32 :: "bytes \<Rightarrow> bytes \<Rightarrow> error + bool" where
  "crypto_verify32 a b =
     (case ensure_bytes_with_length a 32 of Inl e \<Rightarrow> Inl e | Inr _ \<Rightarrow>
      case ensure_bytes_with_length b 32 of Inl e \<Rightarrow> Inl e | Inr _ \<Rightarrow>
      (let rv = lib_crypto_verify32 a b in Inr (rv = 0)))"

definition crypto_verify64 :: "bytes \<Rightarrow> bytes \<Rightarrow> error + bool" where
  "crypto_verify64 a b =
     (case ensure_bytes_with_length a 64 of Inl e \<Rightarrow> Inl e | Inr _ \<Rightarrow>
      case ensure_bytes_with_length b 64 of Inl e \<Rightarrow> Inl e | Inr _ \<Rightarrow>
      (let rv = lib_crypto_verify64 a b in Inr (rv = 0)))"

section \<open>monocypher/public.py: the key classes\<close>

text \<open>
  A \<^verbatim>\<open>PublicKey\<close> object has one slot, \<^verbatim>\<open>_pk\<close>; a \<^verbatim>\<open>PrivateKey\<close> object one slot,
  \<^verbatim>\<open>_sk\<close>. The datatype constructors are the bare objects; \<open>PublicKey_init\<close> and
  \<open>PrivateKey_init\<close> are the classes' \<^verbatim>\<open>__init__\<close>, the only way the program makes
  one.
\<close>

datatype PublicKey = PublicKey (pk_bytes: bytes)

datatype PrivateKey = PrivateKey (sk_bytes: bytes)

definition KEY_SIZE :: nat where
  "KEY_SIZE = 32"

definition PublicKey_init :: "bytes \<Rightarrow> error + PublicKey" where
  "PublicKey_init pk =
     (case ensure_bytes_with_length pk KEY_SIZE of
        Inl e \<Rightarrow> Inl e
      | Inr _ \<Rightarrow> Inr (PublicKey pk))"

definition PrivateKey_init :: "bytes \<Rightarrow> error + PrivateKey" where
  "PrivateKey_init sk =
     (case ensure_bytes_with_length sk KEY_SIZE of
        Inl e \<Rightarrow> Inl e
      | Inr _ \<Rightarrow> Inr (PrivateKey sk))"

definition PrivateKey_generate :: "rng \<Rightarrow> (error + PrivateKey) \<times> rng" where
  "PrivateKey_generate g = (let (b, g') = random KEY_SIZE g in (PrivateKey_init b, g'))"

definition public_key :: "lib \<Rightarrow> PrivateKey \<Rightarrow> error + PublicKey" where
  "public_key L k = PublicKey_init (crypto_key_exchange_public_key L (sk_bytes k))"

text \<open>\<^verbatim>\<open>__bytes__\<close>, which \<^verbatim>\<open>encode()\<close> returns, hands out the stored bytes.\<close>

definition PublicKey_encode :: "PublicKey \<Rightarrow> bytes" where
  "PublicKey_encode k = pk_bytes k"

definition PrivateKey_encode :: "PrivateKey \<Rightarrow> bytes" where
  "PrivateKey_encode k = sk_bytes k"

text \<open>
  \<^verbatim>\<open>__eq__\<close>: \<^verbatim>\<open>isinstance(other, self.__class__) and crypto_verify32(other._pk, self._pk)\<close>,
  for an \<open>other\<close> of the same class.
\<close>

definition PublicKey_eq :: "PublicKey \<Rightarrow> PublicKey \<Rightarrow> error + bool" where
  "PublicKey_eq self other = crypto_verify32 (pk_bytes other) (pk_bytes self)"

definition PrivateKey_eq :: "PrivateKey \<Rightarrow> PrivateKey \<Rightarrow> error + bool" where
  "PrivateKey_eq self other = crypto_verify32 (sk_bytes other) (sk_bytes self)"

section \<open>monocypher/secret.py\<close>

text \<open>
  Modelled from the spec: \<^verbatim>\<open>EncryptedMessage\<close> and \<^verbatim>\<open>SecretBox\<close> of
  \<^verbatim>\<open>monocypher/secret.py\<close>, which is not among the sources (only its tests are).
  An encrypted message is "a logical triple (nonce, mac, ciphertext)" with a full form
  \<open>nonce || mac || ciphertext\<close> and a headless form \<open>mac || ciphertext\<close>; "parsing
  is pure slicing", and parsing fails when the data is shorter than the fields it must
  hold.
\<close>

record EncryptedMessage =
  em_nonce :: "bytes option"
  em_mac :: bytes
  em_payload :: bytes

definition from_full_bytes :: "nat \<Rightarrow> nat \<Rightarrow> bytes \<Rightarrow> error + EncryptedMessage" where
  "from_full_bytes nonce_size mac_size data =
     (if length data < nonce_size + mac_size then Inl MalformedMessage
      else Inr \<lparr>em_nonce = Some (take nonce_size data),
                em_mac = take mac_size (drop nonce_size data),
                em_payload = drop (nonce_size + mac_size) data\<rparr>)"

definition from_headless_bytes :: "nat \<Rightarrow> bytes \<Rightarrow> error + EncryptedMessage" where
  "from_headless_bytes mac_size data =
     (if length data < mac_size then Inl MalformedMessage
      else Inr \<lparr>em_nonce = None,
                em_mac = take mac_size data,
                em_payload = drop mac_size data\<rparr>)"

text \<open>The accessor \<^verbatim>\<open>ciphertext\<close>: the tag followed by the payload.\<close>

definition em_ciphertext :: "EncryptedMessage \<Rightarrow> bytes" where
  "em_ciphertext m = em_mac m @ em_payload m"

definition em_detached_mac :: "EncryptedMessage \<Rightarrow> bytes" where
  "em_detached_mac m = em_mac m"

definition em_detached_ciphertext :: "EncryptedMessage \<Rightarrow> bytes" where
  "em_detached_ciphertext m = em_payload m"

text \<open>
  Modelled from the spec: a \<^verbatim>\<open>SecretBox\<close> holds "one symmetric key (32 bytes)", whose
  length is checked at construction. \<^verbatim>\<open>encrypt\<close> draws a nonce when none is given,
  calls the primitive and returns the message in full form. \<^verbatim>\<open>decrypt\<close> "accepts
  either an EncryptedMessage (nonce embedded) or a headless ciphertext with an explicit
  nonce argument", "fails with MissingNonce if neither supplies one", and fails with
  \<open>AuthenticationFailed\<close> when the primitive rejects. A malformed input size is
  "detected before any primitive call".
\<close>

datatype SecretBox = SecretBox (box_key: bytes)

definition NONCE_SIZE :: nat where
  "NONCE_SIZE = 24"

definition MAC_SIZE :: nat where
  "MAC_SIZE = 16"

definition SecretBox_init :: "bytes \<Rightarrow> error + SecretBox" where
  "SecretBox_init key =
     (case ensure_bytes_with_length key KEY_SIZE of
        Inl e \<Rightarrow> Inl e
      | Inr _ \<Rightarrow> Inr (SecretBox key))"

definition SecretBox_encrypt ::
  "lib \<Rightarrow> SecretBox \<Rightarrow> bytes \<Rightarrow> bytes option \<Rightarrow> bytes \<Rightarrow> rng \<Rightarrow> (error + EncryptedMessage) \<times> rng"
where
  "SecretBox_encrypt L self plaintext nonce associated_data g =
     (let (n, g') = (case nonce of None \<Rightarrow> random NONCE_SIZE g | Some n \<Rightarrow> (n, g)) in
      (case ensure_bytes_with_length n NONCE_SIZE of
         Inl e \<Rightarrow> Inl e
       | Inr _ \<Rightarrow>
           (let (mac, ct) = crypto_lock_aead L (box_key self) n associated_data plaintext
            in Inr \<lparr>em_nonce = Some n, em_mac = mac, em_payload = ct\<rparr>),
       g'))"

datatype decrypt_arg = Message EncryptedMessage | Headless bytes

definition SecretBox_decrypt ::
  "lib \<Rightarrow> SecretBox \<Rightarrow> decrypt_arg \<Rightarrow> bytes option \<Rightarrow> bytes \<Rightarrow> error + bytes"
where
  "SecretBox_decrypt L self arg nonce associated_data =
     (let supplied =
        (case arg of
           Message m \<Rightarrow> (case em_nonce m of Some n \<Rightarrow> Some n | None \<Rightarrow> nonce)
         | Headless _ \<Rightarrow> nonce)
      in
      case supplied of
        None \<Rightarrow> Inl MissingNonce
      | Some n \<Rightarrow>
          (case (case arg of
                   Message m \<Rightarrow> Inr m
                 | Headless data \<Rightarrow> from_headless_bytes MAC_SIZE data) of
             Inl e \<Rightarrow> Inl e
           | Inr m \<Rightarrow>
               (case ensure_bytes_with_length n NONCE_SIZE of
                  Inl e \<Rightarrow> Inl e
                | Inr _ \<Rightarrow>
                    (case crypto_unlock_aead L (box_key self) n (em_mac m) associated_data
                            (em_payload m) of
                       None \<Rightarrow> Inl AuthenticationFailed
                     | Some p \<Rightarrow> Inr p))))"

section \<open>monocypher/public.py: Box and SealedBox\<close>

text \<open>
  The constructors of \<^verbatim>\<open>Box\<close> and \<^verbatim>\<open>SealedBox\<close> inspect the class of their
  arguments with \<^verbatim>\<open>isinstance\<close>, so an argument is a Python object of one of the
  kinds below.
\<close>

datatype pyobj =
    PrivateKeyObj PrivateKey
  | PublicKeyObj PublicKey
  | BytesObj bytes
  | NoneObj

text \<open>
  \<^verbatim>\<open>Box\<close> is a subclass of \<^verbatim>\<open>SecretBox\<close> with no slot of its own: a box is a
  \<open>SecretBox\<close> value. The two \<^verbatim>\<open>ensure(isinstance(...), TypeError, ...)\<close> lines
  come first, \<^verbatim>\<open>your_sk\<close> before \<^verbatim>\<open>their_pk\<close>.
\<close>

definition Box_init :: "lib \<Rightarrow> pyobj \<Rightarrow> pyobj \<Rightarrow> error + SecretBox" where
  "Box_init L your_sk their_pk =
     (case your_sk of
        PrivateKeyObj sk \<Rightarrow>
          (case their_pk of
             PublicKeyObj pk \<Rightarrow>
               SecretBox_init
                 (crypto_key_exchange L (PrivateKey_encode sk) (PublicKey_encode pk))
           | _ \<Rightarrow> Inl TypeError)
      | _ \<Rightarrow> Inl TypeError)"

definition shared_key :: "SecretBox \<Rightarrow> bytes" where
  "shared_key self = box_key self"

datatype SealedBox = SealedBox (sb_pk: PublicKey) (sb_sk: "PrivateKey option")

definition SealedBox_init :: "lib \<Rightarrow> pyobj \<Rightarrow> error + SealedBox" where
  "SealedBox_init L receipient_key =
     (case receipient_key of
        PrivateKeyObj k \<Rightarrow>
          (case public_key L k of
             Inl e \<Rightarrow> Inl e
           | Inr pk \<Rightarrow> Inr (SealedBox pk (Some k)))
      | PublicKeyObj k \<Rightarrow> Inr (SealedBox k None)
      | _ \<Rightarrow> Inl TypeError)"

definition SealedBox_encrypt ::
  "lib \<Rightarrow> SealedBox \<Rightarrow> bytes \<Rightarrow> rng \<Rightarrow> (error + bytes) \<times> rng"
where
  "SealedBox_encrypt L self msg g =
     (let (generated, g1) = PrivateKey_generate g in
      case generated of
        Inl e \<Rightarrow> (Inl e, g1)
      | Inr ephemeral_sk \<Rightarrow>
          (case public_key L ephemeral_sk of
             Inl e \<Rightarrow> (Inl e, g1)
           | Inr ephemeral_pk \<Rightarrow>
               (let nonce = replicate NONCE_SIZE 0 in
                case Box_init L (PrivateKeyObj ephemeral_sk) (PublicKeyObj (sb_pk self)) of
                  Inl e \<Rightarrow> (Inl e, g1)
                | Inr box \<Rightarrow>
                    (let (encrypted, g2) = SecretBox_encrypt L box msg (Some nonce) [] g1 in
                     case encrypted of
                       Inl e \<Rightarrow> (Inl e, g2)
                     | Inr em \<Rightarrow>
                         (Inr (PublicKey_encode ephemeral_pk @ em_ciphertext em), g2)))))"

definition SealedBox_decrypt :: "lib \<Rightarrow> SealedBox \<Rightarrow> bytes \<Rightarrow> error + bytes" where
  "SealedBox_decrypt L self sealed =
     (case sb_sk self of
        None \<Rightarrow> Inl RuntimeError
      | Some sk \<Rightarrow>
          (let e_pk = take KEY_SIZE sealed;
               ct = drop KEY_SIZE sealed
           in
           case PublicKey_init e_pk of
             Inl e \<Rightarrow> Inl e
           | Inr ephemeral \<Rightarrow>
               (case Box_init L (PrivateKeyObj sk) (PublicKeyObj ephemeral) of
                  Inl e \<Rightarrow> Inl e
                | Inr box \<Rightarrow>
                    SecretBox_decrypt L box (Headless ct) (Some (replicate NONCE_SIZE 0)) [])))"

text \<open>
  The two expressions the sealed-box properties are about.
  \<open>sealed_for L r msg g\<close> is
  \<^verbatim>\<open>SealedBox(PrivateKey(r).public_key).encrypt(msg)\<close>, and \<open>open_with L r sealed\<close> is
  \<^verbatim>\<open>SealedBox(PrivateKey(r)).decrypt(sealed)\<close>.
\<close>

definition sealed_for :: "lib \<Rightarrow> bytes \<Rightarrow> bytes \<Rightarrow> rng \<Rightarrow> error + bytes" where
  "sealed_for L r msg g =
     (case PrivateKey_init r of
        Inl e \<Rightarrow> Inl e
      | Inr recipient_priv \<Rightarrow>
          (case public_key L recipient_priv of
             Inl e \<Rightarrow> Inl e
           | Inr recipient_pub \<Rightarrow>
               (case SealedBox_init L (PublicKeyObj recipient_pub) of
                  Inl e \<Rightarrow> Inl e
                | Inr box \<Rightarrow> fst (SealedBox_encrypt L box msg g))))"

definition open_with :: "lib \<Rightarrow> bytes \<Rightarrow> bytes \<Rightarrow> error + bytes" where
  "open_with L r sealed =
     (case PrivateKey_init r of
        Inl e \<Rightarrow> Inl e
      | Inr priv \<Rightarrow>
          (case SealedBox_init L (PrivateKeyObj priv) of
             Inl e \<Rightarrow> Inl e
           | Inr box \<Rightarrow> SealedBox_decrypt L box sealed))"

text \<open>
  Tampering with an envelope: \<open>flip_bit_at i s\<close> is \<open>s\<close> with bit \<open>i mod 8\<close> of its
  byte \<open>i div 8\<close> flipped.
\<close>

definition flip_bit_at :: "nat \<Rightarrow> bytes \<Rightarrow> bytes" where
  "flip_bit_at i s = s[i div 8 := flip_bit (i mod 8) (s ! (i div 8))]"

section \<open>monocypher/pwhash.py\<close>

text \<open>
  Modelled from the spec: \<^verbatim>\<open>pwhash\<close> and \<^verbatim>\<open>verify\<close> of \<^verbatim>\<open>monocypher/pwhash.py\<close>,
  which is not among the sources (only its tests are). The encoded hash is "a single
  self-describing string embedding algorithm parameters (iteration count, memory-block
  count), salt, and hash output" in "a format that round-trips exactly through
  parse\<rightarrow>encode"; the spec gives no byte layout, so the encoded string is represented by
  the four values it embeds, parsing is reading them back, and the hash size is the
  length of the embedded hash. When the salt is omitted \<open>salt_size\<close> random bytes are
  drawn. Violated preconditions "fail with InvalidParameter before invoking the KDF".
\<close>

datatype encoded_hash =
  Encoded (enc_nb_blocks: nat) (enc_nb_iterations: nat) (enc_salt: bytes) (enc_hash: bytes)

definition pwhash ::
  "lib \<Rightarrow> nat \<Rightarrow> bytes \<Rightarrow> bytes option \<Rightarrow> nat \<Rightarrow> nat \<Rightarrow> nat \<Rightarrow> rng \<Rightarrow> (error + encoded_hash) \<times> rng"
where
  "pwhash L salt_size password salt nb_blocks nb_iterations hash_size g =
     (let (s, g') = (case salt of None \<Rightarrow> random salt_size g | Some s \<Rightarrow> (s, g)) in
      (if hash_size < 4 \<or> nb_blocks < 8 \<or> nb_iterations < 1 \<or> length s < 8
       then Inl InvalidParameter
       else Inr (Encoded nb_blocks nb_iterations s
                   (crypto_argon2i L hash_size nb_blocks nb_iterations password s)),
       g'))"

text \<open>
  Modelled from the spec: \<^verbatim>\<open>verify\<close> compares "recovered vs. recomputed hash using the
  constant-time comparator", which is the fixed-width comparison for the length at
  hand; there are three (16, 32 and 64 bytes), and an input of another length "fails
  with InvalidLength".
\<close>

definition constant_time_compare :: "bytes \<Rightarrow> bytes \<Rightarrow> error + bool" where
  "constant_time_compare a b =
     (if length a = 16 then crypto_verify16 a b
      else if length a = 32 then crypto_verify32 a b
      else if length a = 64 then crypto_verify64 a b
      else Inl InvalidLength)"

definition verify :: "lib \<Rightarrow> bytes \<Rightarrow> encoded_hash \<Rightarrow> error + bool" where
  "verify L password encoded =
     (case encoded of
        Encoded nb_blocks nb_iterations salt reference \<Rightarrow>
          constant_time_compare reference
            (crypto_argon2i L (length reference) nb_blocks nb_iterations password salt))"

section \<open>A primitive library that meets the contracts\<close>

text \<open>
  The contracts can be met: \<open>model_lib\<close> is a small instance of the record, used to
  instantiate the theorems below at concrete inputs. It has the sizes and the two laws
  of the contracts and none of the strength of Monocypher's primitives.
\<close>

definition model_mac :: "bytes \<Rightarrow> bytes \<Rightarrow> bytes \<Rightarrow> bytes \<Rightarrow> bytes" where
  "model_mac k n a c = replicate 16 (sum_list (k @ n @ a @ c))"

definition model_lib :: lib where
  "model_lib =
     \<lparr>crypto_lock_aead =
        (\<lambda>k n a p. (model_mac k n a (map (\<lambda>x. x + 1) p), map (\<lambda>x. x + 1) p)),
      crypto_unlock_aead =
        (\<lambda>k n m a c. if m = model_mac k n a c then Some (map (\<lambda>x. x - 1) c) else None),
      crypto_key_exchange = (\<lambda>s p. replicate 32 (sum_list s + sum_list p)),
      crypto_key_exchange_public_key = (\<lambda>s. s),
      crypto_argon2i = (\<lambda>hs nb ni pw salt. replicate hs (sum_list (pw @ salt)))\<rparr>"

section \<open>Facts about the helpers and the comparisons\<close>

lemma ensure_bytes_with_length_iff:
  "ensure_bytes_with_length v n = (if length v = n then Inr () else Inl InvalidLength)"
  by (simp add: ensure_bytes_with_length_def ensure_def)

lemma lib_crypto_verify_zero_iff:
  "length a = n \<Longrightarrow> length b = n \<Longrightarrow> (lib_crypto_verify n a b = 0) = (a = b)"
  by (simp add: lib_crypto_verify_def)

lemma crypto_verify16_eq:
  "crypto_verify16 a b =
     (if length a = 16 \<and> length b = 16 then Inr (a = b) else Inl InvalidLength)"
  by (simp add: crypto_verify16_def lib_crypto_verify16_def ensure_bytes_with_length_iff
      lib_crypto_verify_zero_iff)

lemma crypto_verify32_eq:
  "crypto_verify32 a b =
     (if length a = 32 \<and> length b = 32 then Inr (a = b) else Inl InvalidLength)"
  by (simp add: crypto_verify32_def lib_crypto_verify32_def ensure_bytes_with_length_iff
      lib_crypto_verify_zero_iff)

lemma crypto_verify64_eq:
  "crypto_verify64 a b =
     (if length a = 64 \<and> length b = 64 then Inr (a = b) else Inl InvalidLength)"
  by (simp add: crypto_verify64_def lib_crypto_verify64_def ensure_bytes_with_length_iff
      lib_crypto_verify_zero_iff)

text \<open>
  C3. Each of \<open>crypto_verify16\<close>, \<open>crypto_verify32\<close> and \<open>crypto_verify64\<close> returns,
  for two byte strings that both have the expected length, true exactly when they are
  equal byte for byte; when either has another length the call fails with
  \<open>InvalidLength\<close>, raised by the guards that stand before the call into the library, so
  no prefix of a longer input is ever compared.
\<close>

theorem crypto_verify_exact:
  "crypto_verify16 a b =
     (if length a = 16 \<and> length b = 16 then Inr (a = b) else Inl InvalidLength) \<and>
   crypto_verify32 a b =
     (if length a = 32 \<and> length b = 32 then Inr (a = b) else Inl InvalidLength) \<and>
   crypto_verify64 a b =
     (if length a = 64 \<and> length b = 64 then Inr (a = b) else Inl InvalidLength)"
  using crypto_verify16_eq [of a b] crypto_verify32_eq [of a b] crypto_verify64_eq [of a b]
  by (intro conjI)

section \<open>Facts about the constructors, the generator and the contracts\<close>

lemma PublicKey_init_iff:
  "PublicKey_init b = (if length b = 32 then Inr (PublicKey b) else Inl InvalidLength)"
  by (simp add: PublicKey_init_def KEY_SIZE_def ensure_bytes_with_length_iff)

lemma PrivateKey_init_iff:
  "PrivateKey_init b = (if length b = 32 then Inr (PrivateKey b) else Inl InvalidLength)"
  by (simp add: PrivateKey_init_def KEY_SIZE_def ensure_bytes_with_length_iff)

lemma SecretBox_init_iff:
  "SecretBox_init k = (if length k = 32 then Inr (SecretBox k) else Inl InvalidLength)"
  by (simp add: SecretBox_init_def KEY_SIZE_def ensure_bytes_with_length_iff)

lemma length_random: "length (fst (random n g)) = n"
  by (simp add: random_def)

lemma snd_random: "snd (random n g) = (\<lambda>i. g (n + i))"
  by (simp add: random_def)

lemma PrivateKey_generate_eq:
  "PrivateKey_generate g = (Inr (PrivateKey (fst (random 32 g))), snd (random 32 g))"
  by (simp add: PrivateKey_generate_def KEY_SIZE_def PrivateKey_init_iff length_random
      split_beta)

lemma kx_public_length:
  "kx_contract L \<Longrightarrow> length s = 32 \<Longrightarrow> length (crypto_key_exchange_public_key L s) = 32"
  by (simp add: kx_contract_def)

lemma kx_shared_length:
  "kx_contract L \<Longrightarrow> length s = 32 \<Longrightarrow> length p = 32 \<Longrightarrow>
   length (crypto_key_exchange L s p) = 32"
  by (simp add: kx_contract_def)

lemma kx_symmetric:
  "kx_contract L \<Longrightarrow> length s = 32 \<Longrightarrow> length t = 32 \<Longrightarrow>
   crypto_key_exchange L s (crypto_key_exchange_public_key L t) =
   crypto_key_exchange L t (crypto_key_exchange_public_key L s)"
  by (simp add: kx_contract_def)

lemma aead_mac_length:
  "aead_contract L \<Longrightarrow> length k = 32 \<Longrightarrow> length n = 24 \<Longrightarrow>
   length (fst (crypto_lock_aead L k n a p)) = 16"
  by (simp add: aead_contract_def)

lemma aead_text_length:
  "aead_contract L \<Longrightarrow> length k = 32 \<Longrightarrow> length n = 24 \<Longrightarrow>
   length (snd (crypto_lock_aead L k n a p)) = length p"
  by (simp add: aead_contract_def)

lemma aead_unlock_lock:
  "aead_contract L \<Longrightarrow> length k = 32 \<Longrightarrow> length n = 24 \<Longrightarrow>
   crypto_unlock_aead L k n (fst (crypto_lock_aead L k n a p)) a
     (snd (crypto_lock_aead L k n a p)) = Some p"
  by (simp add: aead_contract_def)

lemma argon2i_length:
  "argon2i_contract L \<Longrightarrow> length (crypto_argon2i L hs nb ni pw salt) = hs"
  by (simp add: argon2i_contract_def)

lemma public_key_eq:
  "kx_contract L \<Longrightarrow> length (sk_bytes k) = 32 \<Longrightarrow>
   public_key L k = Inr (PublicKey (crypto_key_exchange_public_key L (sk_bytes k)))"
  by (simp add: public_key_def PublicKey_init_iff kx_public_length)

lemma Box_init_keys:
  "kx_contract L \<Longrightarrow> length (sk_bytes sk) = 32 \<Longrightarrow> length (pk_bytes pk) = 32 \<Longrightarrow>
   Box_init L (PrivateKeyObj sk) (PublicKeyObj pk) =
     Inr (SecretBox (crypto_key_exchange L (sk_bytes sk) (pk_bytes pk)))"
  by (simp add: Box_init_def SecretBox_init_iff PrivateKey_encode_def PublicKey_encode_def
      kx_shared_length)

section \<open>The model library meets the contracts\<close>

lemma model_lib_aead: "aead_contract model_lib"
  by (simp add: aead_contract_def model_lib_def model_mac_def o_def)

lemma model_lib_kx: "kx_contract model_lib"
  by (simp add: kx_contract_def model_lib_def add.commute)

lemma model_lib_argon2i: "argon2i_contract model_lib"
  by (simp add: argon2i_contract_def model_lib_def)

section \<open>The key classes keep exactly 32 bytes\<close>

text \<open>
  C9. Every \<open>PublicKey\<close> and \<open>PrivateKey\<close> the program constructs holds exactly 32
  bytes. Construction from a byte string of any other length fails with
  \<open>InvalidLength\<close>, so no value exists; a successful construction stores the bytes it
  was given, and they are 32; \<^verbatim>\<open>PrivateKey.generate\<close> and the \<^verbatim>\<open>public_key\<close>
  property go through the same constructors, so the keys they return hold 32 bytes as
  well. No operation of either class writes to the stored bytes: \<^verbatim>\<open>encode\<close> only
  reads them.
\<close>

theorem key_length_invariant:
  "(length bad \<noteq> 32 \<longrightarrow>
      PublicKey_init bad = Inl InvalidLength \<and> PrivateKey_init bad = Inl InvalidLength) \<and>
   (PublicKey_init b = Inr pk \<longrightarrow> pk_bytes pk = b \<and> length (PublicKey_encode pk) = 32) \<and>
   (PrivateKey_init c = Inr sk \<longrightarrow> sk_bytes sk = c \<and> length (PrivateKey_encode sk) = 32) \<and>
   (fst (PrivateKey_generate g) = Inr gk \<longrightarrow> length (PrivateKey_encode gk) = 32) \<and>
   (public_key L k = Inr dk \<longrightarrow> length (PublicKey_encode dk) = 32)"
proof (intro conjI impI)
  assume "length bad \<noteq> 32"
  then show "PublicKey_init bad = Inl InvalidLength"
    and "PrivateKey_init bad = Inl InvalidLength"
    by (simp_all add: PublicKey_init_iff PrivateKey_init_iff)
next
  assume "PublicKey_init b = Inr pk"
  then show "pk_bytes pk = b" and "length (PublicKey_encode pk) = 32"
    by (auto simp: PublicKey_init_iff PublicKey_encode_def split: if_splits)
next
  assume "PrivateKey_init c = Inr sk"
  then show "sk_bytes sk = c" and "length (PrivateKey_encode sk) = 32"
    by (auto simp: PrivateKey_init_iff PrivateKey_encode_def split: if_splits)
next
  assume "fst (PrivateKey_generate g) = Inr gk"
  then show "length (PrivateKey_encode gk) = 32"
    by (auto simp: PrivateKey_generate_eq PrivateKey_encode_def length_random)
next
  assume "public_key L k = Inr dk"
  then show "length (PublicKey_encode dk) = 32"
    by (auto simp: public_key_def PublicKey_init_iff PublicKey_encode_def split: if_splits)
qed

theorem key_length_invariant_witness:
  "length ([] :: bytes) \<noteq> 32 \<and>
   PublicKey_init [] = Inl InvalidLength \<and> PrivateKey_init [] = Inl InvalidLength \<and>
   PublicKey_init (replicate 32 1) = Inr (PublicKey (replicate 32 1)) \<and>
   length (PublicKey_encode (PublicKey (replicate 32 1))) = 32 \<and>
   PrivateKey_init (replicate 32 2) = Inr (PrivateKey (replicate 32 2)) \<and>
   length (PrivateKey_encode (PrivateKey (replicate 32 2))) = 32 \<and>
   fst (PrivateKey_generate (\<lambda>i. 3)) = Inr (PrivateKey (fst (random 32 (\<lambda>i. 3)))) \<and>
   length (PrivateKey_encode (PrivateKey (fst (random 32 (\<lambda>i. 3))))) = 32 \<and>
   public_key model_lib (PrivateKey (replicate 32 2)) = Inr (PublicKey (replicate 32 2)) \<and>
   length (PublicKey_encode (PublicKey (replicate 32 2))) = 32"
proof -
  have h1: "length ([] :: bytes) \<noteq> 32" by simp
  have h2: "PublicKey_init (replicate 32 1) = Inr (PublicKey (replicate 32 1))"
    by (simp add: PublicKey_init_iff)
  have h3: "PrivateKey_init (replicate 32 2) = Inr (PrivateKey (replicate 32 2))"
    by (simp add: PrivateKey_init_iff)
  have h4: "fst (PrivateKey_generate (\<lambda>i. 3)) = Inr (PrivateKey (fst (random 32 (\<lambda>i. 3))))"
    by (simp add: PrivateKey_generate_eq)
  have h5: "public_key model_lib (PrivateKey (replicate 32 2)) = Inr (PublicKey (replicate 32 2))"
    by (simp add: public_key_def PublicKey_init_iff model_lib_def)
  show ?thesis
    using key_length_invariant [of "[]" "replicate 32 1" "PublicKey (replicate 32 1)"
        "replicate 32 2" "PrivateKey (replicate 32 2)" "\<lambda>i. 3"
        "PrivateKey (fst (random 32 (\<lambda>i. 3)))" model_lib "PrivateKey (replicate 32 2)"
        "PublicKey (replicate 32 2)"] h1 h2 h3 h4 h5
    by blast
qed

text \<open>
  On keys of 32 bytes \<^verbatim>\<open>__eq__\<close> never raises: the comparison it calls gets two
  inputs of the length it expects, and returns whether the keys hold the same bytes.
\<close>

lemma PublicKey_eq_constructed:
  "length (pk_bytes self) = 32 \<Longrightarrow> length (pk_bytes other) = 32 \<Longrightarrow>
   PublicKey_eq self other = Inr (self = other)"
  by (cases self; cases other) (auto simp: PublicKey_eq_def crypto_verify32_eq)

lemma PrivateKey_eq_constructed:
  "length (sk_bytes self) = 32 \<Longrightarrow> length (sk_bytes other) = 32 \<Longrightarrow>
   PrivateKey_eq self other = Inr (self = other)"
  by (cases self; cases other) (auto simp: PrivateKey_eq_def crypto_verify32_eq)

section \<open>Box\<close>

text \<open>
  C5. For a \<open>PrivateKey\<close> and a \<open>PublicKey\<close>, \<^verbatim>\<open>Box(your_sk, their_pk)\<close> is the
  \<open>SecretBox\<close> whose key is \<open>crypto_key_exchange\<close> of the two keys' bytes (the
  library's X25519 + HChaCha20 key exchange), and \<^verbatim>\<open>shared_key()\<close> returns that key.
  When the first argument is not a \<open>PrivateKey\<close> or the second is not a \<open>PublicKey\<close>
  the construction fails with \<open>TypeError\<close>.
\<close>

theorem Box_init_shared_key:
  "(kx_contract L \<and> PrivateKey_init a = Inr your_sk \<and> PublicKey_init b = Inr their_pk \<longrightarrow>
      (\<exists>box. Box_init L (PrivateKeyObj your_sk) (PublicKeyObj their_pk) = Inr box \<and>
             box = SecretBox (crypto_key_exchange L a b) \<and>
             shared_key box = crypto_key_exchange L a b)) \<and>
   ((\<forall>sk. x \<noteq> PrivateKeyObj sk) \<or> (\<forall>pk. y \<noteq> PublicKeyObj pk) \<longrightarrow>
      Box_init L x y = Inl TypeError)"
proof (intro conjI impI)
  assume h: "kx_contract L \<and> PrivateKey_init a = Inr your_sk \<and> PublicKey_init b = Inr their_pk"
  then have sk: "your_sk = PrivateKey a" "length a = 32" and pk: "their_pk = PublicKey b" "length b = 32"
    by (auto simp: PrivateKey_init_iff PublicKey_init_iff split: if_splits)
  from h have "Box_init L (PrivateKeyObj your_sk) (PublicKeyObj their_pk) =
      Inr (SecretBox (crypto_key_exchange L a b))"
    using Box_init_keys [of L your_sk their_pk] sk pk by simp
  then show "\<exists>box. Box_init L (PrivateKeyObj your_sk) (PublicKeyObj their_pk) = Inr box \<and>
             box = SecretBox (crypto_key_exchange L a b) \<and>
             shared_key box = crypto_key_exchange L a b"
    by (simp add: shared_key_def)
next
  assume "(\<forall>sk. x \<noteq> PrivateKeyObj sk) \<or> (\<forall>pk. y \<noteq> PublicKeyObj pk)"
  then show "Box_init L x y = Inl TypeError"
    by (cases x; cases y) (auto simp: Box_init_def)
qed

theorem Box_init_shared_key_witness:
  "kx_contract model_lib \<and>
   PrivateKey_init (replicate 32 1) = Inr (PrivateKey (replicate 32 1)) \<and>
   PublicKey_init (replicate 32 2) = Inr (PublicKey (replicate 32 2)) \<and>
   (\<exists>box. Box_init model_lib (PrivateKeyObj (PrivateKey (replicate 32 1)))
            (PublicKeyObj (PublicKey (replicate 32 2))) = Inr box \<and>
          box = SecretBox (crypto_key_exchange model_lib (replicate 32 1) (replicate 32 2)) \<and>
          shared_key box = crypto_key_exchange model_lib (replicate 32 1) (replicate 32 2)) \<and>
   Box_init model_lib (PublicKeyObj (PublicKey (replicate 32 2)))
     (PublicKeyObj (PublicKey (replicate 32 2))) = Inl TypeError \<and>
   Box_init model_lib (PrivateKeyObj (PrivateKey (replicate 32 1))) (BytesObj (replicate 32 2)) =
     Inl TypeError"
proof -
  have h1: "PrivateKey_init (replicate 32 1) = Inr (PrivateKey (replicate 32 1))"
    by (simp add: PrivateKey_init_iff)
  have h2: "PublicKey_init (replicate 32 2) = Inr (PublicKey (replicate 32 2))"
    by (simp add: PublicKey_init_iff)
  have h3: "\<forall>sk. PublicKeyObj (PublicKey (replicate 32 2)) \<noteq> PrivateKeyObj sk" by simp
  have h4: "\<forall>pk. BytesObj (replicate 32 2) \<noteq> PublicKeyObj pk" by simp
  show ?thesis
    using Box_init_shared_key [of model_lib "replicate 32 1" "PrivateKey (replicate 32 1)"
        "replicate 32 2" "PublicKey (replicate 32 2)" "PublicKeyObj (PublicKey (replicate 32 2))"
        "PublicKeyObj (PublicKey (replicate 32 2))"]
      Box_init_shared_key [of model_lib "replicate 32 1" "PrivateKey (replicate 32 1)"
        "replicate 32 2" "PublicKey (replicate 32 2)" "PrivateKeyObj (PrivateKey (replicate 32 1))"
        "BytesObj (replicate 32 2)"]
      model_lib_kx h1 h2 h3 h4
    by blast
qed

section \<open>SecretBox\<close>

lemma SecretBox_encrypt_nonce:
  "length n = 24 \<Longrightarrow>
   SecretBox_encrypt L box p (Some n) a g =
     (Inr \<lparr>em_nonce = Some n,
           em_mac = fst (crypto_lock_aead L (box_key box) n a p),
           em_payload = snd (crypto_lock_aead L (box_key box) n a p)\<rparr>, g)"
  by (simp add: SecretBox_encrypt_def NONCE_SIZE_def ensure_bytes_with_length_iff split_beta)

lemma SecretBox_decrypt_headless:
  "length n = 24 \<Longrightarrow>
   SecretBox_decrypt L box (Headless c) (Some n) a =
     (if length c < 16 then Inl MalformedMessage
      else case crypto_unlock_aead L (box_key box) n (take 16 c) a (drop 16 c) of
             None \<Rightarrow> Inl AuthenticationFailed
           | Some p \<Rightarrow> Inr p)"
  by (simp add: SecretBox_decrypt_def NONCE_SIZE_def MAC_SIZE_def from_headless_bytes_def
      ensure_bytes_with_length_iff)

lemma SecretBox_decrypt_headless_errors:
  "length n = 24 \<Longrightarrow> SecretBox_decrypt L box (Headless c) (Some n) a = Inl e \<Longrightarrow>
   e = MalformedMessage \<or> e = AuthenticationFailed"
  by (auto simp: SecretBox_decrypt_headless split: if_splits option.splits)

lemma from_full_bytes_parts:
  "length n = nonce_size \<Longrightarrow> length m = mac_size \<Longrightarrow>
   from_full_bytes nonce_size mac_size (n @ m @ c) =
     Inr \<lparr>em_nonce = Some n, em_mac = m, em_payload = c\<rparr>"
  by (simp add: from_full_bytes_def)

text \<open>
  C7. For every \<open>SecretBox\<close> and every headless ciphertext, \<^verbatim>\<open>decrypt\<close> called with
  no nonce argument fails with \<open>MissingNonce\<close>: it returns no plaintext, whatever the
  primitive library would answer. The same holds for a message object that carries no
  nonce.
\<close>

theorem decrypt_without_nonce:
  "SecretBox_decrypt L box (Headless c) None a = Inl MissingNonce \<and>
   SecretBox_decrypt L box (Message (m\<lparr>em_nonce := None\<rparr>)) None a = Inl MissingNonce"
  by (simp add: SecretBox_decrypt_def)

text \<open>
  C1. For every 32-byte key \<open>k\<close>, 24-byte nonce \<open>n\<close>, associated data \<open>a\<close> and
  plaintext \<open>p\<close>, a \<open>SecretBox\<close> for \<open>k\<close> exists, encrypting \<open>p\<close> under \<open>n\<close> and
  \<open>a\<close> succeeds, and decrypting the resulting message with \<open>n\<close> and \<open>a\<close> returns
  \<open>p\<close>: for the full \<open>EncryptedMessage\<close> (with or without the nonce argument, the
  message carries it) and for its headless ciphertext with the nonce passed explicitly.
\<close>

theorem SecretBox_round_trip:
  assumes "aead_contract L" and "length k = 32" and "length n = 24"
  shows "\<exists>box em.
     SecretBox_init k = Inr box \<and>
     fst (SecretBox_encrypt L box p (Some n) a g) = Inr em \<and>
     SecretBox_decrypt L box (Message em) (Some n) a = Inr p \<and>
     SecretBox_decrypt L box (Message em) None a = Inr p \<and>
     SecretBox_decrypt L box (Headless (em_ciphertext em)) (Some n) a = Inr p"
proof -
  let ?box = "SecretBox k"
  let ?mac = "fst (crypto_lock_aead L k n a p)"
  let ?ct = "snd (crypto_lock_aead L k n a p)"
  let ?em = "\<lparr>em_nonce = Some n, em_mac = ?mac, em_payload = ?ct\<rparr>"
  have mac: "length ?mac = 16"
    using assms by (rule aead_mac_length)
  have unlock: "crypto_unlock_aead L k n ?mac a ?ct = Some p"
    using assms by (rule aead_unlock_lock)
  have init: "SecretBox_init k = Inr ?box"
    using assms(2) by (simp add: SecretBox_init_iff)
  have enc: "fst (SecretBox_encrypt L ?box p (Some n) a g) = Inr ?em"
    using assms(3) by (simp add: SecretBox_encrypt_nonce)
  have full: "SecretBox_decrypt L ?box (Message ?em) nonce a = Inr p" for nonce
    using assms(3) unlock
    by (simp add: SecretBox_decrypt_def NONCE_SIZE_def ensure_bytes_with_length_iff)
  have headless: "SecretBox_decrypt L ?box (Headless (em_ciphertext ?em)) (Some n) a = Inr p"
    using assms(3) mac unlock
    by (simp add: SecretBox_decrypt_headless em_ciphertext_def)
  from init enc full headless show ?thesis by blast
qed

theorem SecretBox_round_trip_witness:
  "aead_contract model_lib \<and> length (replicate 32 (7 :: byte)) = 32 \<and>
   length (replicate 24 (9 :: byte)) = 24 \<and>
   (\<exists>box em.
     SecretBox_init (replicate 32 7) = Inr box \<and>
     fst (SecretBox_encrypt model_lib box [1, 2, 3] (Some (replicate 24 9)) [4] (\<lambda>i. 0)) = Inr em \<and>
     SecretBox_decrypt model_lib box (Message em) (Some (replicate 24 9)) [4] = Inr [1, 2, 3] \<and>
     SecretBox_decrypt model_lib box (Message em) None [4] = Inr [1, 2, 3] \<and>
     SecretBox_decrypt model_lib box (Headless (em_ciphertext em)) (Some (replicate 24 9)) [4] =
       Inr [1, 2, 3])"
proof -
  have h1: "length (replicate 32 (7 :: byte)) = 32" by simp
  have h2: "length (replicate 24 (9 :: byte)) = 24" by simp
  show ?thesis
    using SecretBox_round_trip [OF model_lib_aead h1 h2, of "[1, 2, 3]" "[4]" "\<lambda>i. 0"]
      model_lib_aead h1 h2
    by blast
qed

section \<open>SealedBox\<close>

text \<open>
  What \<^verbatim>\<open>SealedBox.decrypt\<close> and \<^verbatim>\<open>SealedBox.encrypt\<close> compute, for a box whose
  keys are well-formed, in terms of the primitives alone.
\<close>

lemma SealedBox_decrypt_cases:
  assumes "kx_contract L" and "length (sk_bytes sk) = 32"
  shows "SealedBox_decrypt L (SealedBox pk (Some sk)) s =
     (if length s < 32 then Inl InvalidLength
      else if length s < 48 then Inl MalformedMessage
      else case crypto_unlock_aead L (crypto_key_exchange L (sk_bytes sk) (take 32 s))
                  (replicate 24 0) (take 16 (drop 32 s)) [] (drop 48 s) of
             None \<Rightarrow> Inl AuthenticationFailed
           | Some p \<Rightarrow> Inr p)"
proof (cases "length s < 32")
  case True
  then show ?thesis
    by (simp add: SealedBox_decrypt_def KEY_SIZE_def PublicKey_init_iff)
next
  case False
  then have len: "length (take 32 s) = 32" by simp
  have box: "Box_init L (PrivateKeyObj sk) (PublicKeyObj (PublicKey (take 32 s))) =
      Inr (SecretBox (crypto_key_exchange L (sk_bytes sk) (take 32 s)))"
    using Box_init_keys [OF assms(1) assms(2), of "PublicKey (take 32 s)"] len by simp
  from False have "length (drop 32 s) < 16 \<longleftrightarrow> length s < 48" by auto
  with False len box show ?thesis
    by (simp add: SealedBox_decrypt_def KEY_SIZE_def PublicKey_init_iff NONCE_SIZE_def
        SecretBox_decrypt_headless add.commute)
qed

lemma SealedBox_encrypt_eq:
  assumes "kx_contract L" and "length (pk_bytes (sb_pk self)) = 32"
  shows "SealedBox_encrypt L self msg g =
     (let esk = fst (random 32 g);
          k = crypto_key_exchange L esk (pk_bytes (sb_pk self));
          locked = crypto_lock_aead L k (replicate 24 0) [] msg
      in (Inr (crypto_key_exchange_public_key L esk @ fst locked @ snd locked),
          snd (random 32 g)))"
proof -
  have pub: "public_key L (PrivateKey (fst (random 32 g))) =
      Inr (PublicKey (crypto_key_exchange_public_key L (fst (random 32 g))))"
    using public_key_eq [OF assms(1), of "PrivateKey (fst (random 32 g))"]
    by (simp add: length_random)
  have box: "Box_init L (PrivateKeyObj (PrivateKey (fst (random 32 g)))) (PublicKeyObj (sb_pk self)) =
      Inr (SecretBox (crypto_key_exchange L (fst (random 32 g)) (pk_bytes (sb_pk self))))"
    using Box_init_keys [OF assms(1) _ assms(2), of "PrivateKey (fst (random 32 g))"]
    by (simp add: length_random)
  show ?thesis
    by (simp add: SealedBox_encrypt_def PrivateKey_generate_eq pub box NONCE_SIZE_def
        SecretBox_encrypt_nonce em_ciphertext_def PublicKey_encode_def Let_def)
qed

lemma sealed_for_eq:
  assumes "kx_contract L" and "length r = 32"
  shows "sealed_for L r msg g =
     Inr (crypto_key_exchange_public_key L (fst (random 32 g)) @
          fst (crypto_lock_aead L
                 (crypto_key_exchange L (fst (random 32 g)) (crypto_key_exchange_public_key L r))
                 (replicate 24 0) [] msg) @
          snd (crypto_lock_aead L
                 (crypto_key_exchange L (fst (random 32 g)) (crypto_key_exchange_public_key L r))
                 (replicate 24 0) [] msg))"
proof -
  let ?pub = "PublicKey (crypto_key_exchange_public_key L r)"
  have pub: "public_key L (PrivateKey r) = Inr ?pub"
    using public_key_eq [OF assms(1), of "PrivateKey r"] assms(2) by simp
  have len: "length (pk_bytes (sb_pk (SealedBox ?pub None))) = 32"
    using assms by (simp add: kx_public_length)
  show ?thesis
    using assms(2)
    by (simp add: sealed_for_def PrivateKey_init_iff pub SealedBox_init_def
        SealedBox_encrypt_eq [OF assms(1) len] Let_def)
qed

lemma open_with_eq:
  assumes "kx_contract L" and "length r = 32"
  shows "open_with L r s =
     (if length s < 32 then Inl InvalidLength
      else if length s < 48 then Inl MalformedMessage
      else case crypto_unlock_aead L (crypto_key_exchange L r (take 32 s))
                  (replicate 24 0) (take 16 (drop 32 s)) [] (drop 48 s) of
             None \<Rightarrow> Inl AuthenticationFailed
           | Some p \<Rightarrow> Inr p)"
proof -
  have pub: "public_key L (PrivateKey r) =
      Inr (PublicKey (crypto_key_exchange_public_key L r))"
    using public_key_eq [OF assms(1), of "PrivateKey r"] assms(2) by simp
  have "open_with L r s =
      SealedBox_decrypt L
        (SealedBox (PublicKey (crypto_key_exchange_public_key L r)) (Some (PrivateKey r))) s"
    using assms(2) by (simp add: open_with_def PrivateKey_init_iff SealedBox_init_def pub)
  then show ?thesis
    using SealedBox_decrypt_cases [OF assms(1), of "PrivateKey r"] assms(2) by simp
qed

lemma open_with_envelope:
  assumes "kx_contract L" and "length r = 32" and "length e = 32" and "length m = 16"
  shows "open_with L r (e @ m @ c) =
     (case crypto_unlock_aead L (crypto_key_exchange L r e) (replicate 24 0) m [] c of
        None \<Rightarrow> Inl AuthenticationFailed
      | Some p \<Rightarrow> Inr p)"
  using assms(3,4) by (simp add: open_with_eq [OF assms(1,2)])

text \<open>
  C4. For every message and every sealed box whose recipient public key is a
  well-formed key, \<^verbatim>\<open>SealedBox.encrypt\<close> draws the next 32 bytes of the generator as
  a fresh ephemeral private key (the generator it hands back starts after them, so the
  next call draws other bytes), encrypts the message with the \<open>Box\<close> of the ephemeral
  private key and the recipient public key under the all-zero 24-byte nonce, and
  returns exactly the ephemeral public key (32 bytes), the tag (16 bytes) and the
  cipher text (as long as the message): \<open>length msg + 48\<close> bytes. In terms of the
  primitives: the ephemeral private key \<open>esk\<close> is the 32 drawn bytes, the prefix is
  \<open>crypto_key_exchange_public_key L esk\<close>, the key of the box is
  \<open>crypto_key_exchange L esk\<close> of the recipient's public key bytes, and the tag and
  cipher text are what \<open>crypto_lock_aead\<close> returns for the message under that key, the
  zero nonce and no associated data.
\<close>

theorem SealedBox_encrypt_layout:
  assumes "kx_contract L" and "aead_contract L" and "length (pk_bytes (sb_pk self)) = 32"
  shows "\<exists>ephemeral_sk ephemeral_pk box em.
     PrivateKey_generate g = (Inr ephemeral_sk, \<lambda>i. g (32 + i)) \<and>
     sk_bytes ephemeral_sk = map g [0..<32] \<and>
     public_key L ephemeral_sk = Inr ephemeral_pk \<and>
     pk_bytes ephemeral_pk = crypto_key_exchange_public_key L (map g [0..<32]) \<and>
     Box_init L (PrivateKeyObj ephemeral_sk) (PublicKeyObj (sb_pk self)) = Inr box \<and>
     box_key box = crypto_key_exchange L (map g [0..<32]) (pk_bytes (sb_pk self)) \<and>
     fst (SecretBox_encrypt L box msg (Some (replicate 24 0)) [] (\<lambda>i. g (32 + i))) = Inr em \<and>
     em_nonce em = Some (replicate 24 0) \<and>
     em_mac em =
       fst (crypto_lock_aead L
              (crypto_key_exchange L (map g [0..<32]) (pk_bytes (sb_pk self)))
              (replicate 24 0) [] msg) \<and>
     em_payload em =
       snd (crypto_lock_aead L
              (crypto_key_exchange L (map g [0..<32]) (pk_bytes (sb_pk self)))
              (replicate 24 0) [] msg) \<and>
     SealedBox_encrypt L self msg g =
       (Inr (PublicKey_encode ephemeral_pk @ em_mac em @ em_payload em), \<lambda>i. g (32 + i)) \<and>
     SealedBox_encrypt L self msg g =
       (Inr (crypto_key_exchange_public_key L (map g [0..<32]) @
             fst (crypto_lock_aead L
                    (crypto_key_exchange L (map g [0..<32]) (pk_bytes (sb_pk self)))
                    (replicate 24 0) [] msg) @
             snd (crypto_lock_aead L
                    (crypto_key_exchange L (map g [0..<32]) (pk_bytes (sb_pk self)))
                    (replicate 24 0) [] msg)),
        \<lambda>i. g (32 + i)) \<and>
     length (PublicKey_encode ephemeral_pk) = 32 \<and>
     length (em_mac em) = 16 \<and>
     length (em_payload em) = length msg \<and>
     length (PublicKey_encode ephemeral_pk @ em_mac em @ em_payload em) = length msg + 48"
proof -
  let ?esk = "map g [0..<32]"
  let ?epk = "crypto_key_exchange_public_key L ?esk"
  let ?k = "crypto_key_exchange L ?esk (pk_bytes (sb_pk self))"
  let ?locked = "crypto_lock_aead L ?k (replicate 24 0) [] msg"
  let ?em = "\<lparr>em_nonce = Some (replicate 24 0), em_mac = fst ?locked, em_payload = snd ?locked\<rparr>"
  have drawn: "fst (random 32 g) = ?esk" by (simp add: random_def)
  have esk: "length ?esk = 32" by simp
  have epk: "length ?epk = 32" using assms(1) esk by (rule kx_public_length)
  have k: "length ?k = 32" using assms(1) esk assms(3) by (rule kx_shared_length)
  have mac: "length (fst ?locked) = 16"
    using assms(2) k by (rule aead_mac_length) simp
  have ct: "length (snd ?locked) = length msg"
    using assms(2) k by (rule aead_text_length) simp
  have gen: "PrivateKey_generate g = (Inr (PrivateKey ?esk), \<lambda>i. g (32 + i))"
    by (simp add: PrivateKey_generate_eq snd_random drawn)
  have bytes: "sk_bytes (PrivateKey ?esk) = ?esk"
    by simp
  have pub: "public_key L (PrivateKey ?esk) = Inr (PublicKey ?epk)"
    using public_key_eq [OF assms(1), of "PrivateKey ?esk"] esk by simp
  have prefix: "pk_bytes (PublicKey ?epk) = ?epk"
    by simp
  have box: "Box_init L (PrivateKeyObj (PrivateKey ?esk)) (PublicKeyObj (sb_pk self)) =
      Inr (SecretBox ?k)"
    using Box_init_keys [OF assms(1) _ assms(3), of "PrivateKey ?esk"] esk by simp
  have key: "box_key (SecretBox ?k) = ?k"
    by simp
  have enc: "fst (SecretBox_encrypt L (SecretBox ?k) msg (Some (replicate 24 0)) []
      (\<lambda>i. g (32 + i))) = Inr ?em"
    by (simp add: SecretBox_encrypt_nonce)
  have parts: "em_nonce ?em = Some (replicate 24 0)" "em_mac ?em = fst ?locked"
    "em_payload ?em = snd ?locked"
    by simp_all
  have out: "SealedBox_encrypt L self msg g =
      (Inr (PublicKey_encode (PublicKey ?epk) @ em_mac ?em @ em_payload ?em), \<lambda>i. g (32 + i))"
    by (simp add: SealedBox_encrypt_eq [OF assms(1) assms(3)] Let_def snd_random
        PublicKey_encode_def drawn)
  have explicit: "SealedBox_encrypt L self msg g =
      (Inr (?epk @ fst ?locked @ snd ?locked), \<lambda>i. g (32 + i))"
    by (simp add: SealedBox_encrypt_eq [OF assms(1) assms(3)] Let_def snd_random drawn)
  have sizes: "length (PublicKey_encode (PublicKey ?epk)) = 32" "length (em_mac ?em) = 16"
    "length (em_payload ?em) = length msg"
    "length (PublicKey_encode (PublicKey ?epk) @ em_mac ?em @ em_payload ?em) = length msg + 48"
    using epk mac ct by (simp_all add: PublicKey_encode_def)
  show ?thesis
  proof (intro exI conjI)
    show "PrivateKey_generate g = (Inr (PrivateKey ?esk), \<lambda>i. g (32 + i))" by (rule gen)
    show "sk_bytes (PrivateKey ?esk) = ?esk" by (rule bytes)
    show "public_key L (PrivateKey ?esk) = Inr (PublicKey ?epk)" by (rule pub)
    show "pk_bytes (PublicKey ?epk) = ?epk" by (rule prefix)
    show "Box_init L (PrivateKeyObj (PrivateKey ?esk)) (PublicKeyObj (sb_pk self)) =
        Inr (SecretBox ?k)" by (rule box)
    show "box_key (SecretBox ?k) = ?k" by (rule key)
    show "fst (SecretBox_encrypt L (SecretBox ?k) msg (Some (replicate 24 0)) []
        (\<lambda>i. g (32 + i))) = Inr ?em" by (rule enc)
    show "em_nonce ?em = Some (replicate 24 0)" by (rule parts)
    show "em_mac ?em = fst ?locked" by (rule parts)
    show "em_payload ?em = snd ?locked" by (rule parts)
    show "SealedBox_encrypt L self msg g =
        (Inr (PublicKey_encode (PublicKey ?epk) @ em_mac ?em @ em_payload ?em),
         \<lambda>i. g (32 + i))" by (rule out)
    show "SealedBox_encrypt L self msg g =
        (Inr (?epk @ fst ?locked @ snd ?locked), \<lambda>i. g (32 + i))" by (rule explicit)
    show "length (PublicKey_encode (PublicKey ?epk)) = 32" by (rule sizes)
    show "length (em_mac ?em) = 16" by (rule sizes)
    show "length (em_payload ?em) = length msg" by (rule sizes)
    show "length (PublicKey_encode (PublicKey ?epk) @ em_mac ?em @ em_payload ?em) =
        length msg + 48" by (rule sizes)
  qed
qed

theorem SealedBox_encrypt_layout_witness:
  "kx_contract model_lib \<and> aead_contract model_lib \<and>
   length (pk_bytes (sb_pk (SealedBox (PublicKey (replicate 32 5)) None))) = 32 \<and>
   SealedBox_encrypt model_lib (SealedBox (PublicKey (replicate 32 5)) None) [1, 2, 3] (\<lambda>i. 7) =
     (Inr (replicate 32 7 @ replicate 16 9 @ [2, 3, 4]), \<lambda>i. 7) \<and>
   length (replicate 32 (7 :: byte) @ replicate 16 9 @ [2, 3, 4]) = length [1, 2, 3 :: byte] + 48 \<and>
   (\<exists>ephemeral_sk ephemeral_pk box.
     PrivateKey_generate (\<lambda>i. 7) = (Inr ephemeral_sk, \<lambda>i. 7) \<and>
     sk_bytes ephemeral_sk = replicate 32 7 \<and>
     public_key model_lib ephemeral_sk = Inr ephemeral_pk \<and>
     pk_bytes ephemeral_pk = replicate 32 7 \<and>
     Box_init model_lib (PrivateKeyObj ephemeral_sk)
       (PublicKeyObj (sb_pk (SealedBox (PublicKey (replicate 32 5)) None))) = Inr box \<and>
     box_key box = replicate 32 128)"
proof -
  let ?self = "SealedBox (PublicKey (replicate 32 5)) None"
  have h: "length (pk_bytes (sb_pk ?self)) = 32"
    by simp
  have drawn: "map (\<lambda>i. 7 :: byte) [0..<32] = replicate 32 7"
    by (simp add: map_replicate_const)
  have pub: "crypto_key_exchange_public_key model_lib (replicate 32 7) = replicate 32 7"
    by (simp add: model_lib_def)
  have key: "crypto_key_exchange model_lib (replicate 32 7) (pk_bytes (sb_pk ?self)) =
      replicate 32 128"
    by (simp add: model_lib_def sum_list_replicate)
  have locked: "crypto_lock_aead model_lib (replicate 32 128) (replicate 24 0) [] [1, 2, 3] =
      (replicate 16 9, [2, 3, 4])"
    by (simp add: model_lib_def model_mac_def sum_list_replicate)
  obtain ephemeral_sk ephemeral_pk box em where
    gen: "PrivateKey_generate (\<lambda>i. 7) = (Inr ephemeral_sk, \<lambda>i. 7)"
    and sk: "sk_bytes ephemeral_sk = map (\<lambda>i. 7) [0..<32]"
    and pk: "public_key model_lib ephemeral_sk = Inr ephemeral_pk"
    and prefix: "pk_bytes ephemeral_pk =
        crypto_key_exchange_public_key model_lib (map (\<lambda>i. 7) [0..<32])"
    and box: "Box_init model_lib (PrivateKeyObj ephemeral_sk) (PublicKeyObj (sb_pk ?self)) =
        Inr box"
    and box_key: "box_key box =
        crypto_key_exchange model_lib (map (\<lambda>i. 7) [0..<32]) (pk_bytes (sb_pk ?self))"
    and out: "SealedBox_encrypt model_lib ?self [1, 2, 3] (\<lambda>i. 7) =
       (Inr (crypto_key_exchange_public_key model_lib (map (\<lambda>i. 7) [0..<32]) @
             fst (crypto_lock_aead model_lib
                    (crypto_key_exchange model_lib (map (\<lambda>i. 7) [0..<32])
                       (pk_bytes (sb_pk ?self)))
                    (replicate 24 0) [] [1, 2, 3]) @
             snd (crypto_lock_aead model_lib
                    (crypto_key_exchange model_lib (map (\<lambda>i. 7) [0..<32])
                       (pk_bytes (sb_pk ?self)))
                    (replicate 24 0) [] [1, 2, 3])),
        \<lambda>i. 7)"
    using SealedBox_encrypt_layout [OF model_lib_kx model_lib_aead h, of "\<lambda>i. 7" "[1, 2, 3]"]
    by blast
  have out': "SealedBox_encrypt model_lib ?self [1, 2, 3] (\<lambda>i. 7) =
      (Inr (replicate 32 7 @ replicate 16 9 @ [2, 3, 4]), \<lambda>i. 7)"
    using out unfolding drawn pub key locked by simp
  have sk': "sk_bytes ephemeral_sk = replicate 32 7"
    using sk unfolding drawn .
  have prefix': "pk_bytes ephemeral_pk = replicate 32 7"
    using prefix unfolding drawn pub .
  have box_key': "box_key box = replicate 32 128"
    using box_key unfolding drawn key .
  have len: "length (replicate 32 (7 :: byte) @ replicate 16 9 @ [2, 3, 4]) =
      length [1, 2, 3 :: byte] + 48"
    by simp
  from gen sk' pk prefix' box box_key'
  have steps: "\<exists>ephemeral_sk ephemeral_pk box.
     PrivateKey_generate (\<lambda>i. 7) = (Inr ephemeral_sk, \<lambda>i. 7) \<and>
     sk_bytes ephemeral_sk = replicate 32 7 \<and>
     public_key model_lib ephemeral_sk = Inr ephemeral_pk \<and>
     pk_bytes ephemeral_pk = replicate 32 7 \<and>
     Box_init model_lib (PrivateKeyObj ephemeral_sk) (PublicKeyObj (sb_pk ?self)) = Inr box \<and>
     box_key box = replicate 32 128"
    by blast
  from model_lib_kx model_lib_aead h out' len steps show ?thesis
    by (intro conjI)
qed

subsection \<open>Opening a sealed envelope\<close>

text \<open>
  There are \<open>256 ^ n\<close> byte strings of length \<open>n\<close>, so a function from 32-byte
  strings to 16-byte strings sends two different strings to the same value.
\<close>

lemma card_bytes_of_length: "card {xs :: bytes. length xs = n} = 256 ^ n"
  using card_lists_length_eq [of "UNIV :: byte set" n] by (simp add: card_word)

lemma finite_bytes_of_length: "finite {xs :: bytes. length xs = n}"
  using finite_lists_length_eq [of "UNIV :: byte set" n] by simp

lemma tags_collide:
  assumes "\<And>r :: bytes. length r = 32 \<Longrightarrow> length (f r :: bytes) = 16"
  shows "\<exists>r r'. length r = 32 \<and> length r' = 32 \<and> r \<noteq> r' \<and> f r = f r'"
proof (rule ccontr)
  assume "\<not> ?thesis"
  then have "inj_on f {r. length r = 32}"
    by (auto simp: inj_on_def)
  moreover have "f ` {r. length r = 32} \<subseteq> {m. length m = 16}"
    using assms by auto
  ultimately have "card {r :: bytes. length r = 32} \<le> card {m :: bytes. length m = 16}"
    using finite_bytes_of_length by (rule card_inj_on_le)
  then have "(256 :: nat) ^ 32 \<le> 256 ^ 16"
    by (simp only: card_bytes_of_length)
  then show False by simp
qed

text \<open>
  C2, as the code has it. For every message and every 32-byte recipient private key,
  sealing to the recipient's public key succeeds and the recipient's own
  \<open>SealedBox\<close> opens the envelope to the message. A \<open>SealedBox\<close> built from any
  other 32-byte private key hands the envelope's tag and cipher text to the primitive
  under the key it derives from the envelope's first 32 bytes: it fails with
  \<open>AuthenticationFailed\<close> exactly when the primitive rejects, fails in no other way,
  and returns the primitive's plain text otherwise.
\<close>

theorem sealed_box_round_trip:
  assumes "kx_contract L" and "aead_contract L" and "length r = 32"
  shows "\<exists>sealed.
     sealed_for L r msg g = Inr sealed \<and>
     open_with L r sealed = Inr msg \<and>
     (\<forall>r'. length r' = 32 \<longrightarrow>
        open_with L r' sealed =
          (case crypto_unlock_aead L (crypto_key_exchange L r' (take 32 sealed))
                  (replicate 24 0) (take 16 (drop 32 sealed)) [] (drop 48 sealed) of
             None \<Rightarrow> Inl AuthenticationFailed
           | Some p \<Rightarrow> Inr p))"
proof -
  let ?esk = "fst (random 32 g)"
  let ?epk = "crypto_key_exchange_public_key L ?esk"
  let ?k = "crypto_key_exchange L ?esk (crypto_key_exchange_public_key L r)"
  let ?mac = "fst (crypto_lock_aead L ?k (replicate 24 0) [] msg)"
  let ?ct = "snd (crypto_lock_aead L ?k (replicate 24 0) [] msg)"
  let ?sealed = "?epk @ ?mac @ ?ct"
  have esk: "length ?esk = 32" by (rule length_random)
  have epk: "length ?epk = 32" using assms(1) esk by (rule kx_public_length)
  have pub: "length (crypto_key_exchange_public_key L r) = 32"
    using assms(1,3) by (rule kx_public_length)
  have k: "length ?k = 32" using assms(1) esk pub by (rule kx_shared_length)
  have mac: "length ?mac = 16" using assms(2) k by (rule aead_mac_length) simp
  have sym: "crypto_key_exchange L r ?epk = ?k"
    using assms(1,3) esk by (rule kx_symmetric)
  have unlock: "crypto_unlock_aead L ?k (replicate 24 0) ?mac [] ?ct = Some msg"
    using assms(2) k by (rule aead_unlock_lock) simp
  have sealed: "sealed_for L r msg g = Inr ?sealed"
    using assms(1,3) by (rule sealed_for_eq)
  have own: "open_with L r ?sealed = Inr msg"
    by (simp add: open_with_envelope [OF assms(1,3) epk mac] sym unlock)
  have other: "open_with L r' ?sealed =
      (case crypto_unlock_aead L (crypto_key_exchange L r' (take 32 ?sealed))
              (replicate 24 0) (take 16 (drop 32 ?sealed)) [] (drop 48 ?sealed) of
         None \<Rightarrow> Inl AuthenticationFailed
       | Some p \<Rightarrow> Inr p)" if "length r' = 32" for r'
    using epk mac by (simp add: open_with_eq [OF assms(1) that])
  from sealed own other show ?thesis by blast
qed

theorem sealed_box_round_trip_witness:
  "kx_contract model_lib \<and> aead_contract model_lib \<and> length (replicate 32 (0 :: byte)) = 32 \<and>
   length (1 # replicate 31 (0 :: byte)) = 32 \<and>
   (\<exists>sealed.
      sealed_for model_lib (replicate 32 0) [1, 2, 3] (\<lambda>i. 0) = Inr sealed \<and>
      open_with model_lib (replicate 32 0) sealed = Inr [1, 2, 3] \<and>
      open_with model_lib (1 # replicate 31 0) sealed = Inl AuthenticationFailed)"
proof -
  have h: "length (replicate 32 (0 :: byte)) = 32" by simp
  have h': "length (1 # replicate 31 (0 :: byte)) = 32" by simp
  obtain sealed where
    s: "sealed_for model_lib (replicate 32 0) [1, 2, 3] (\<lambda>i. 0) = Inr sealed"
    and own: "open_with model_lib (replicate 32 0) sealed = Inr [1, 2, 3]"
    and other: "\<forall>r'. length r' = 32 \<longrightarrow>
        open_with model_lib r' sealed =
          (case crypto_unlock_aead model_lib (crypto_key_exchange model_lib r' (take 32 sealed))
                  (replicate 24 0) (take 16 (drop 32 sealed)) [] (drop 48 sealed) of
             None \<Rightarrow> Inl AuthenticationFailed
           | Some p \<Rightarrow> Inr p)"
    using sealed_box_round_trip [OF model_lib_kx model_lib_aead h, of "[1, 2, 3]" "\<lambda>i. 0"]
    by blast
  have content: "sealed = replicate 32 0 @ replicate 16 9 @ [2, 3, 4]"
    using s sealed_for_eq [OF model_lib_kx h, of "[1, 2, 3]" "\<lambda>i. 0"]
    by (simp add: model_lib_def model_mac_def random_def map_replicate_const sum_list_replicate)
  have "open_with model_lib (1 # replicate 31 0) sealed = Inl AuthenticationFailed"
    using other h' unfolding content
    by (simp add: model_lib_def model_mac_def sum_list_replicate)
  with s own h h' model_lib_kx model_lib_aead show ?thesis by blast
qed

text \<open>
  C2, as stated, asks that every other private key fails. No primitive library that
  meets the contracts can deliver that: with the empty message the envelope is the
  ephemeral public key followed by a 16-byte tag alone, the recipient's own key must
  open it, and among the 32-byte private keys two different ones yield the same tag for
  the same ephemeral key; each of the two then opens the envelope sealed for the other.
\<close>

theorem sealed_box_other_key_counterexample:
  "\<not> (\<exists>L. kx_contract L \<and> aead_contract L \<and>
         (\<forall>msg g r r'. length r = 32 \<and> length r' = 32 \<and> r' \<noteq> r \<longrightarrow>
            (\<exists>sealed. sealed_for L r msg g = Inr sealed \<and>
                      open_with L r' sealed = Inl AuthenticationFailed)))"
proof
  assume "\<exists>L. kx_contract L \<and> aead_contract L \<and>
         (\<forall>msg g r r'. length r = 32 \<and> length r' = 32 \<and> r' \<noteq> r \<longrightarrow>
            (\<exists>sealed. sealed_for L r msg g = Inr sealed \<and>
                      open_with L r' sealed = Inl AuthenticationFailed))"
  then obtain L where kx: "kx_contract L" and aead: "aead_contract L"
    and claim: "\<And>msg g r r'. length r = 32 \<Longrightarrow> length r' = 32 \<Longrightarrow> r' \<noteq> r \<Longrightarrow>
      \<exists>sealed. sealed_for L r msg g = Inr sealed \<and>
               open_with L r' sealed = Inl AuthenticationFailed"
    by blast
  define g :: rng where "g = (\<lambda>i. 0)"
  define esk where "esk = fst (random 32 g)"
  define epk where "epk = crypto_key_exchange_public_key L esk"
  define key where "key r = crypto_key_exchange L esk (crypto_key_exchange_public_key L r)" for r
  define tag where "tag r = fst (crypto_lock_aead L (key r) (replicate 24 0) [] [])" for r
  have esk: "length esk = 32" by (simp add: esk_def length_random)
  have epk: "length epk = 32" unfolding epk_def using kx esk by (rule kx_public_length)
  have key: "length (key r) = 32" if "length r = 32" for r
    unfolding key_def using kx esk kx_public_length [OF kx that] by (rule kx_shared_length)
  have tag: "length (tag r) = 16" if "length r = 32" for r
    unfolding tag_def using aead key [OF that] by (rule aead_mac_length) simp
  have empty: "snd (crypto_lock_aead L (key r) (replicate 24 0) [] []) = []"
    if "length r = 32" for r
    using aead_text_length [OF aead key [OF that], of "replicate 24 0" "[]" "[]"] by simp
  have sealed: "sealed_for L r [] g = Inr (epk @ tag r @ [])" if "length r = 32" for r
    using sealed_for_eq [OF kx that, of "[]" g] empty [OF that]
    by (simp add: epk_def esk_def tag_def key_def)
  have opens: "open_with L r (epk @ tag r @ []) = Inr []" if "length r = 32" for r
  proof -
    have "crypto_key_exchange L r epk = key r"
      unfolding epk_def key_def using kx that esk by (rule kx_symmetric)
    moreover have "crypto_unlock_aead L (key r) (replicate 24 0) (tag r) [] [] = Some []"
      using aead_unlock_lock [OF aead key [OF that], of "replicate 24 0" "[]" "[]"]
        empty [OF that] by (simp add: tag_def)
    ultimately show ?thesis
      using open_with_envelope [OF kx that epk tag [OF that], of "[]"] by simp
  qed
  obtain r r' where r: "length r = 32" and r': "length r' = 32" and ne: "r \<noteq> r'"
    and same: "tag r = tag r'"
    using tags_collide [of tag] tag by blast
  from claim [OF r r', of "[]" g] ne
  have "open_with L r' (epk @ tag r @ []) = Inl AuthenticationFailed"
    by (auto simp: sealed [OF r])
  with opens [OF r'] same show False by simp
qed

subsection \<open>How SealedBox.decrypt fails\<close>

text \<open>
  A box made from a public key alone fails with \<open>RuntimeError\<close>, and a box that has a
  private key never does. On an input of at least 32 bytes the result is that of
  \<^verbatim>\<open>SecretBox.decrypt\<close> on the remainder, under the all-zero nonce, whose failures are
  \<open>MalformedMessage\<close> and \<open>AuthenticationFailed\<close>. On a shorter input
  \<^verbatim>\<open>PublicKey(e_pk)\<close> raises first.
\<close>

lemma SealedBox_decrypt_public_only:
  "SealedBox_decrypt L (SealedBox pk None) s = Inl RuntimeError"
  by (simp add: SealedBox_decrypt_def)

lemma SealedBox_decrypt_RuntimeError_iff:
  assumes "kx_contract L" and "\<forall>sk. sb_sk self = Some sk \<longrightarrow> length (sk_bytes sk) = 32"
  shows "SealedBox_decrypt L self s = Inl RuntimeError \<longleftrightarrow> sb_sk self = None"
proof (cases self)
  case (SealedBox pk opt)
  show ?thesis
  proof (cases opt)
    case None
    with SealedBox show ?thesis by (simp add: SealedBox_decrypt_public_only)
  next
    case (Some sk)
    with SealedBox assms(2) have "length (sk_bytes sk) = 32" by simp
    with SealedBox Some show ?thesis
      by (simp add: SealedBox_decrypt_cases [OF assms(1)] split: option.split)
  qed
qed

lemma SealedBox_decrypt_long:
  assumes "kx_contract L" and "length (sk_bytes sk) = 32" and "32 \<le> length s"
  shows "SealedBox_decrypt L (SealedBox pk (Some sk)) s =
     SecretBox_decrypt L (SecretBox (crypto_key_exchange L (sk_bytes sk) (take 32 s)))
       (Headless (drop 32 s)) (Some (replicate 24 0)) []"
proof -
  from assms(3) have "length (drop 32 s) < 16 \<longleftrightarrow> length s < 48" by auto
  with assms(3) show ?thesis
    by (simp add: SealedBox_decrypt_cases [OF assms(1,2)] SecretBox_decrypt_headless
        add.commute)
qed

lemma SealedBox_decrypt_below_32:
  "length s < 32 \<Longrightarrow> SealedBox_decrypt L (SealedBox pk (Some sk)) s = Inl InvalidLength"
  by (simp add: SealedBox_decrypt_def KEY_SIZE_def PublicKey_init_iff)

text \<open>
  C6. \<^verbatim>\<open>SealedBox(private_key).decrypt(b'')\<close>: the slice \<^verbatim>\<open>ciphertext[:32]\<close> is empty,
  \<^verbatim>\<open>PublicKey(e_pk)\<close> fails its length check and the call ends with \<open>InvalidLength\<close>,
  which is none of the failures of \<^verbatim>\<open>SecretBox.decrypt\<close> that the docstring of
  \<^verbatim>\<open>SealedBox.decrypt\<close> promises (\<^verbatim>\<open>CryptoError\<close>).
\<close>

theorem SealedBox_decrypt_short_input:
  "SealedBox_decrypt L (SealedBox pk (Some sk)) [] = Inl InvalidLength \<and>
   \<not> is_CryptoError InvalidLength"
  by (simp add: SealedBox_decrypt_def KEY_SIZE_def PublicKey_init_iff)

subsection \<open>An altered ephemeral public key\<close>

text \<open>
  When a bit of the leading 32 bytes of an envelope is flipped, \<^verbatim>\<open>SealedBox.decrypt\<close>
  uses the altered prefix as the ephemeral public key and hands the untouched tag and
  cipher text to the primitive under the key exchanged with it. The outcome is
  \<open>AuthenticationFailed\<close> exactly when the primitive rejects; whether it does is not
  decided by the composition layer, and not by the contracts either: the model library
  meets them and opens an envelope whose bit 3 was flipped.
\<close>

lemma length_flip_bit_at: "length (flip_bit_at i s) = length s"
  by (simp add: flip_bit_at_def)

lemma take_flip_bit_at:
  "i < 256 \<Longrightarrow> 32 \<le> length s \<Longrightarrow> take 32 (flip_bit_at i s) = flip_bit_at i (take 32 s)"
  by (simp add: flip_bit_at_def take_update_swap)

lemma drop_flip_bit_at:
  "i < 256 \<Longrightarrow> drop 32 (flip_bit_at i s) = drop 32 s"
  by (simp add: flip_bit_at_def)

lemma open_with_altered_prefix:
  assumes "kx_contract L" and "length r = 32" and "i < 256" and "48 \<le> length s"
  shows "open_with L r (flip_bit_at i s) =
     (case crypto_unlock_aead L (crypto_key_exchange L r (flip_bit_at i (take 32 s)))
             (replicate 24 0) (take 16 (drop 32 s)) [] (drop 48 s) of
        None \<Rightarrow> Inl AuthenticationFailed
      | Some p \<Rightarrow> Inr p)"
proof -
  have "drop 48 (flip_bit_at i s) = drop 16 (drop 32 (flip_bit_at i s))" by simp
  also have "\<dots> = drop 48 s" using assms(3) by (simp add: drop_flip_bit_at)
  finally have d: "drop 48 (flip_bit_at i s) = drop 48 s" .
  show ?thesis
    using assms(3,4)
    by (simp add: open_with_eq [OF assms(1,2)] length_flip_bit_at take_flip_bit_at
        drop_flip_bit_at d)
qed

lemma model_lib_opens_altered_envelope:
  "sealed_for model_lib (replicate 32 0) [1, 2, 3] (\<lambda>i. 0) =
     Inr (replicate 32 0 @ replicate 16 9 @ [2, 3, 4]) \<and>
   flip_bit_at 3 (replicate 32 0 @ replicate 16 9 @ [2, 3, 4]) =
     (8 # replicate 31 0) @ replicate 16 9 @ [2, 3, 4] \<and>
   open_with model_lib (replicate 32 0) (flip_bit_at 3 (replicate 32 0 @ replicate 16 9 @ [2, 3, 4])) =
     Inr [1, 2, 3]"
proof (intro conjI)
  have h: "length (replicate 32 (0 :: byte)) = 32" by simp
  show "sealed_for model_lib (replicate 32 0) [1, 2, 3] (\<lambda>i. 0) =
     Inr (replicate 32 0 @ replicate 16 9 @ [2, 3, 4])"
    using sealed_for_eq [OF model_lib_kx h, of "[1, 2, 3]" "\<lambda>i. 0"]
    by (simp add: model_lib_def model_mac_def random_def map_replicate_const sum_list_replicate)
  show flipped: "flip_bit_at 3 (replicate 32 0 @ replicate 16 9 @ [2, 3, 4]) =
     (8 # replicate 31 0) @ replicate 16 9 @ [2, 3, 4]"
  proof -
    have "replicate 32 (0 :: byte) = 0 # replicate 31 0"
      using replicate_Suc [of 31 "0 :: byte"] by simp
    moreover have "flip_bit 3 (0 :: byte) = 8"
      by (simp add: flip_bit_eq_xor)
    ultimately show ?thesis
      by (simp add: flip_bit_at_def)
  qed
  have h': "length (8 # replicate 31 (0 :: byte)) = 32" by simp
  have m: "length (replicate 16 (9 :: byte)) = 16" by simp
  show "open_with model_lib (replicate 32 0)
      (flip_bit_at 3 (replicate 32 0 @ replicate 16 9 @ [2, 3, 4])) = Inr [1, 2, 3]"
    unfolding flipped
    using open_with_envelope [OF model_lib_kx h h' m, of "[2, 3, 4]"]
    by (simp add: model_lib_def model_mac_def sum_list_replicate)
qed

section \<open>Password hashing\<close>

lemma constant_time_compare_eq:
  "constant_time_compare a b =
     (if length a \<in> {16, 32, 64} \<and> length b = length a then Inr (a = b)
      else Inl InvalidLength)"
  by (simp add: constant_time_compare_def crypto_verify16_eq crypto_verify32_eq
      crypto_verify64_eq)

lemma verify_eq:
  assumes "argon2i_contract L"
  shows "verify L pw (Encoded nb ni s h) =
     (if length h \<in> {16, 32, 64} then Inr (h = crypto_argon2i L (length h) nb ni pw s)
      else Inl InvalidLength)"
  by (simp add: verify_def constant_time_compare_eq argon2i_length [OF assms])

lemma pwhash_eq:
  "pwhash L salt_size pw salt nb ni hs g =
     (let s = (case salt of None \<Rightarrow> fst (random salt_size g) | Some s \<Rightarrow> s) in
      (if hs < 4 \<or> nb < 8 \<or> ni < 1 \<or> length s < 8 then Inl InvalidParameter
       else Inr (Encoded nb ni s (crypto_argon2i L hs nb ni pw s)),
       case salt of None \<Rightarrow> snd (random salt_size g) | Some s \<Rightarrow> g))"
  by (cases salt) (simp_all add: pwhash_def split_beta Let_def)

lemma hashes_collide:
  assumes "\<And>pw :: bytes. length (f pw :: bytes) = n"
  shows "\<exists>pw pw'. pw \<noteq> pw' \<and> f pw = f pw'"
proof (rule ccontr)
  assume "\<not> ?thesis"
  then have "inj_on f UNIV" by (auto simp: inj_on_def)
  moreover have "f ` UNIV \<subseteq> {h. length h = n}" using assms by auto
  then have "finite (f ` UNIV)" using finite_bytes_of_length by (rule finite_subset)
  ultimately have "finite (UNIV :: bytes set)" by (rule finite_imageD [rotated])
  then show False by (simp add: infinite_UNIV_listI)
qed

text \<open>
  C8, as the code has it. For every password and every parameter combination with a
  hash size of 16, 32 or 64 bytes, at least 8 blocks, at least 1 iteration and a salt
  of at least 8 bytes (given, or drawn), \<^verbatim>\<open>pwhash\<close> succeeds and \<^verbatim>\<open>verify\<close> of the
  same password against its result is true. For any other password, \<^verbatim>\<open>verify\<close>
  returns whether that password's hash under the embedded parameters and salt equals
  the embedded hash: false exactly when the two hashes differ. Verification uses the
  password and the values embedded in the encoded hash, and nothing else.
\<close>

theorem pwhash_verify:
  assumes "argon2i_contract L" and "hash_size \<in> {16, 32, 64}"
    and "8 \<le> nb_blocks" and "1 \<le> nb_iterations"
    and "case salt of None \<Rightarrow> 8 \<le> salt_size | Some s \<Rightarrow> 8 \<le> length s"
  shows "\<exists>s h.
     fst (pwhash L salt_size password salt nb_blocks nb_iterations hash_size g) =
       Inr (Encoded nb_blocks nb_iterations s h) \<and>
     h = crypto_argon2i L hash_size nb_blocks nb_iterations password s \<and>
     verify L password (Encoded nb_blocks nb_iterations s h) = Inr True \<and>
     (\<forall>wrong. verify L wrong (Encoded nb_blocks nb_iterations s h) =
        Inr (crypto_argon2i L hash_size nb_blocks nb_iterations wrong s = h)) \<and>
     (\<forall>pw. verify L pw (Encoded nb_blocks nb_iterations s h) =
        constant_time_compare h (crypto_argon2i L (length h) nb_blocks nb_iterations pw s))"
proof -
  let ?s = "case salt of None \<Rightarrow> fst (random salt_size g) | Some s \<Rightarrow> s"
  let ?h = "crypto_argon2i L hash_size nb_blocks nb_iterations password ?s"
  have s: "8 \<le> length ?s"
    using assms(5) by (cases salt) (simp_all add: length_random)
  have len: "length ?h = hash_size" using assms(1) by (rule argon2i_length)
  have enc: "fst (pwhash L salt_size password salt nb_blocks nb_iterations hash_size g) =
      Inr (Encoded nb_blocks nb_iterations ?s ?h)"
    using assms(2,3,4) s by (auto simp: pwhash_eq Let_def)
  have v: "verify L pw (Encoded nb_blocks nb_iterations ?s ?h) =
      Inr (crypto_argon2i L hash_size nb_blocks nb_iterations pw ?s = ?h)" for pw
    using assms(2) len by (auto simp: verify_eq [OF assms(1)])
  have d: "verify L pw (Encoded nb_blocks nb_iterations ?s ?h) =
      constant_time_compare ?h (crypto_argon2i L (length ?h) nb_blocks nb_iterations pw ?s)" for pw
    by (simp add: verify_def)
  have t: "verify L password (Encoded nb_blocks nb_iterations ?s ?h) = Inr True"
    by (simp add: v)
  from enc t v d show ?thesis by blast
qed

theorem pwhash_verify_witness:
  "argon2i_contract model_lib \<and> (16 :: nat) \<in> {16, 32, 64} \<and> (8 :: nat) \<le> 8 \<and> (1 :: nat) \<le> 1 \<and>
   (case Some (replicate 8 (1 :: byte)) of None \<Rightarrow> (8 :: nat) \<le> 8 | Some s \<Rightarrow> 8 \<le> length s) \<and>
   fst (pwhash model_lib 8 [1, 2, 3] (Some (replicate 8 1)) 8 1 16 (\<lambda>i. 0)) =
     Inr (Encoded 8 1 (replicate 8 1) (replicate 16 14)) \<and>
   verify model_lib [1, 2, 3] (Encoded 8 1 (replicate 8 1) (replicate 16 14)) = Inr True \<and>
   verify model_lib [9] (Encoded 8 1 (replicate 8 1) (replicate 16 14)) = Inr False"
proof -
  have h1: "(16 :: nat) \<in> {16, 32, 64}" by simp
  have h2: "(8 :: nat) \<le> 8" by simp
  have h3: "(1 :: nat) \<le> 1" by simp
  have h4: "case Some (replicate 8 (1 :: byte)) of None \<Rightarrow> (8 :: nat) \<le> 8 | Some s \<Rightarrow> 8 \<le> length s"
    by simp
  obtain s h where
    enc: "fst (pwhash model_lib 8 [1, 2, 3] (Some (replicate 8 1)) 8 1 16 (\<lambda>i. 0)) =
       Inr (Encoded 8 1 s h)"
    and ok: "verify model_lib [1, 2, 3] (Encoded 8 1 s h) = Inr True"
    and wrong: "\<forall>wrong. verify model_lib wrong (Encoded 8 1 s h) =
        Inr (crypto_argon2i model_lib 16 8 1 wrong s = h)"
    using pwhash_verify [OF model_lib_argon2i h1 h2 h3 h4, of "[1, 2, 3]" "\<lambda>i. 0"] by blast
  have content: "s = replicate 8 1 \<and> h = replicate 16 14"
    using enc by (simp add: pwhash_eq Let_def model_lib_def sum_list_replicate)
  have "verify model_lib [9] (Encoded 8 1 s h) = Inr False"
    using wrong content by (simp add: model_lib_def sum_list_replicate)
  with enc ok content have
    "fst (pwhash model_lib 8 [1, 2, 3] (Some (replicate 8 1)) 8 1 16 (\<lambda>i. 0)) =
       Inr (Encoded 8 1 (replicate 8 1) (replicate 16 14)) \<and>
     verify model_lib [1, 2, 3] (Encoded 8 1 (replicate 8 1) (replicate 16 14)) = Inr True \<and>
     verify model_lib [9] (Encoded 8 1 (replicate 8 1) (replicate 16 14)) = Inr False"
    by (simp only:) 
  with model_lib_argon2i h1 h2 h3 h4 show ?thesis by (intro conjI) simp_all
qed

text \<open>
  C8, as stated, fails twice, whatever Argon2i computes. With a hash size of 4 (or any
  size other than 16, 32 and 64) there is no constant-time comparison for the hash, and
  \<^verbatim>\<open>verify\<close> fails with \<open>InvalidLength\<close> on the result of \<^verbatim>\<open>pwhash\<close>. And since
  there are infinitely many passwords and finitely many 16-byte hashes, two different
  passwords have the same hash under the same parameters and salt, so a wrong password
  exists that \<^verbatim>\<open>verify\<close> accepts.
\<close>

theorem pwhash_verify_counterexample:
  "\<not> (\<exists>L salt_size. argon2i_contract L \<and>
         (\<forall>password salt nb_blocks nb_iterations hash_size g.
            4 \<le> hash_size \<and> 8 \<le> nb_blocks \<and> 1 \<le> nb_iterations \<and>
            (case salt of None \<Rightarrow> True | Some s \<Rightarrow> 8 \<le> length s) \<longrightarrow>
            (\<exists>enc. fst (pwhash L salt_size password salt nb_blocks nb_iterations hash_size g) =
                     Inr enc \<and>
                   verify L password enc = Inr True))) \<and>
   \<not> (\<exists>L salt_size. argon2i_contract L \<and>
         (\<forall>password salt nb_blocks nb_iterations hash_size g.
            hash_size \<in> {16, 32, 64} \<and> 8 \<le> nb_blocks \<and> 1 \<le> nb_iterations \<and>
            (case salt of None \<Rightarrow> True | Some s \<Rightarrow> 8 \<le> length s) \<longrightarrow>
            (\<exists>enc. fst (pwhash L salt_size password salt nb_blocks nb_iterations hash_size g) =
                     Inr enc \<and>
                   (\<forall>wrong. wrong \<noteq> password \<longrightarrow> verify L wrong enc = Inr False))))"
proof (intro conjI notI)
  assume "\<exists>L salt_size. argon2i_contract L \<and>
         (\<forall>password salt nb_blocks nb_iterations hash_size g.
            4 \<le> hash_size \<and> 8 \<le> nb_blocks \<and> 1 \<le> nb_iterations \<and>
            (case salt of None \<Rightarrow> True | Some s \<Rightarrow> 8 \<le> length s) \<longrightarrow>
            (\<exists>enc. fst (pwhash L salt_size password salt nb_blocks nb_iterations hash_size g) =
                     Inr enc \<and>
                   verify L password enc = Inr True))"
  then obtain L salt_size where L: "argon2i_contract L"
    and claim: "\<forall>password salt nb_blocks nb_iterations hash_size g.
            4 \<le> hash_size \<and> 8 \<le> nb_blocks \<and> 1 \<le> nb_iterations \<and>
            (case salt of None \<Rightarrow> True | Some s \<Rightarrow> 8 \<le> length s) \<longrightarrow>
            (\<exists>enc. fst (pwhash L salt_size password salt nb_blocks nb_iterations hash_size g) =
                     Inr enc \<and>
                   verify L password enc = Inr True)"
    by (elim exE conjE)
  have "\<exists>enc. fst (pwhash L salt_size [] (Some (replicate 8 0)) 8 1 4 (\<lambda>i. 0)) = Inr enc \<and>
      verify L [] enc = Inr True"
    by (rule claim [rule_format]) simp
  then have "verify L [] (Encoded 8 1 (replicate 8 0) (crypto_argon2i L 4 8 1 [] (replicate 8 0))) =
      Inr True"
    by (simp add: pwhash_eq Let_def)
  then show False
    by (simp add: verify_eq [OF L] argon2i_length [OF L])
next
  assume "\<exists>L salt_size. argon2i_contract L \<and>
         (\<forall>password salt nb_blocks nb_iterations hash_size g.
            hash_size \<in> {16, 32, 64} \<and> 8 \<le> nb_blocks \<and> 1 \<le> nb_iterations \<and>
            (case salt of None \<Rightarrow> True | Some s \<Rightarrow> 8 \<le> length s) \<longrightarrow>
            (\<exists>enc. fst (pwhash L salt_size password salt nb_blocks nb_iterations hash_size g) =
                     Inr enc \<and>
                   (\<forall>wrong. wrong \<noteq> password \<longrightarrow> verify L wrong enc = Inr False)))"
  then obtain L salt_size where L: "argon2i_contract L"
    and claim: "\<forall>password salt nb_blocks nb_iterations hash_size g.
            hash_size \<in> {16, 32, 64} \<and> 8 \<le> nb_blocks \<and> 1 \<le> nb_iterations \<and>
            (case salt of None \<Rightarrow> True | Some s \<Rightarrow> 8 \<le> length s) \<longrightarrow>
            (\<exists>enc. fst (pwhash L salt_size password salt nb_blocks nb_iterations hash_size g) =
                     Inr enc \<and>
                   (\<forall>wrong. wrong \<noteq> password \<longrightarrow> verify L wrong enc = Inr False))"
    by (elim exE conjE)
  define f where "f pw = crypto_argon2i L 16 8 1 pw (replicate 8 0)" for pw
  have "length (f pw) = 16" for pw
    unfolding f_def using L by (rule argon2i_length)
  then obtain pw pw' where ne: "pw \<noteq> pw'" and same: "f pw = f pw'"
    using hashes_collide [of f 16] by blast
  have "\<exists>enc. fst (pwhash L salt_size pw (Some (replicate 8 0)) 8 1 16 (\<lambda>i. 0)) = Inr enc \<and>
      (\<forall>wrong. wrong \<noteq> pw \<longrightarrow> verify L wrong enc = Inr False)"
    by (rule claim [rule_format]) simp
  then have "verify L pw' (Encoded 8 1 (replicate 8 0) (f pw)) = Inr False"
    using ne by (simp add: pwhash_eq Let_def f_def)
  moreover have "verify L pw' (Encoded 8 1 (replicate 8 0) (f pw)) = Inr True"
    using same \<open>length (f pw) = 16\<close> by (simp add: verify_eq [OF L] f_def)
  ultimately show False by simp
qed

end
